theory Spec2Isabelle
  imports Main "HOL-Library.Sublist"
begin

section \<open>Data model of the book reader (script.js)\<close>

text \<open>
  The reader keeps four module-level variables (\<^verbatim>\<open>booksIndex\<close>, \<^verbatim>\<open>bookCache\<close>,
  \<^verbatim>\<open>currentBookId\<close>, \<^verbatim>\<open>currentChapter\<close>) and writes to the DOM, to
  \<^verbatim>\<open>history\<close> and to \<^verbatim>\<open>alert\<close>. The embedding passes one record of all of that
  through every function.

  Numbers. Book ids and chapter numbers are the integers of the data model and are
  modelled by \<open>int\<close>; JavaScript represents them exactly below \<open>2^53\<close> and prints them in
  decimal below \<open>10^21\<close>. What is proved of the text of a number is proved of safe
  integers. A number that \<^verbatim>\<open>Number(...)\<close> makes from a deep-link string
  can also be \<^verbatim>\<open>NaN\<close>, or a value that is no integer (a fraction or an infinity,
  \<open>NonInt\<close>): the program only compares such a value with integers (never equal), shows it
  in the title, and looks it up as a cache key, under which nothing is ever stored.

  Strings are byte lists; a character outside ASCII is its UTF-8 bytes.
\<close>

datatype jsnum = Num int | NaN | NonInt

datatype jsval = VNull | VNum jsnum | VStr string

record BookSummary =
  s_id :: int
  s_name :: string
  s_file :: string

record Chapter =
  number :: int
  verses :: "string list"

record BookContent =
  b_id :: int
  b_name :: string
  chapters :: "Chapter list"

section \<open>Strings: split, join, trim, lower case, includes\<close>

text \<open>\<^verbatim>\<open>s.split(sep)\<close> for a one-character separator; the result is never empty.\<close>

fun splitOn :: "char \<Rightarrow> string \<Rightarrow> string list" where
  "splitOn sep [] = [[]]"
| "splitOn sep (c # cs) =
     (if c = sep then [] # splitOn sep cs
      else (case splitOn sep cs of
              [] \<Rightarrow> [[c]]
            | w # ws \<Rightarrow> (c # w) # ws))"

text \<open>\<^verbatim>\<open>parts.join(sep)\<close>.\<close>

fun joinWith :: "string \<Rightarrow> string list \<Rightarrow> string" where
  "joinWith sep [] = []"
| "joinWith sep [p] = p"
| "joinWith sep (p # q # ps) = p @ sep @ joinWith sep (q # ps)"

text \<open>
  The white space and line terminators that \<^verbatim>\<open>trim\<close> and \<^verbatim>\<open>Number\<close> strip: TAB, LF, VT,
  FF, CR, SP, and in UTF-8 U+00A0, U+1680, U+2000 to U+200A, U+2028, U+2029, U+202F,
  U+205F, U+3000, U+FEFF.
\<close>

definition wsChars :: "string list" where
  "wsChars =
    [[CHR 0x09], [CHR 0x0A], [CHR 0x0B], [CHR 0x0C], [CHR 0x0D], [CHR 0x20],
     [CHR 0xC2, CHR 0xA0], [CHR 0xE1, CHR 0x9A, CHR 0x80],
     [CHR 0xE2, CHR 0x80, CHR 0x80], [CHR 0xE2, CHR 0x80, CHR 0x81],
     [CHR 0xE2, CHR 0x80, CHR 0x82], [CHR 0xE2, CHR 0x80, CHR 0x83],
     [CHR 0xE2, CHR 0x80, CHR 0x84], [CHR 0xE2, CHR 0x80, CHR 0x85],
     [CHR 0xE2, CHR 0x80, CHR 0x86], [CHR 0xE2, CHR 0x80, CHR 0x87],
     [CHR 0xE2, CHR 0x80, CHR 0x88], [CHR 0xE2, CHR 0x80, CHR 0x89],
     [CHR 0xE2, CHR 0x80, CHR 0x8A], [CHR 0xE2, CHR 0x80, CHR 0xA8],
     [CHR 0xE2, CHR 0x80, CHR 0xA9], [CHR 0xE2, CHR 0x80, CHR 0xAF],
     [CHR 0xE2, CHR 0x81, CHR 0x9F], [CHR 0xE3, CHR 0x80, CHR 0x80],
     [CHR 0xEF, CHR 0xBB, CHR 0xBF]]"

lemma wsChars_nonempty: "w \<in> set wsChars \<Longrightarrow> w \<noteq> []"
  by (auto simp: wsChars_def)

text \<open>The number of bytes of a white space character, from its first byte.\<close>

definition wsLength :: "char \<Rightarrow> nat" where
  "wsLength c = (if of_char c < (128 :: nat) then 1 else if of_char c = (194 :: nat) then 2 else 3)"

function trimStart :: "string \<Rightarrow> string" where
  "trimStart s =
     (case find (\<lambda>w. prefix w s) wsChars of
        None \<Rightarrow> s
      | Some w \<Rightarrow> trimStart (drop (length w) s))"
  by pat_completeness auto
termination
proof (relation "measure length")
  fix s w
  assume "find (\<lambda>w. prefix w s) wsChars = Some w"
  then have "w \<in> set wsChars" and "prefix w s"
    by (auto simp: find_Some_iff)
  then have "w \<noteq> []" and "length w \<le> length s"
    by (auto simp: wsChars_nonempty prefix_length_le)
  then show "(drop (length w) s, s) \<in> measure length"
    by (cases w) auto
qed simp

function trimEnd :: "string \<Rightarrow> string" where
  "trimEnd s =
     (case find (\<lambda>w. suffix w s) wsChars of
        None \<Rightarrow> s
      | Some w \<Rightarrow> trimEnd (take (length s - length w) s))"
  by pat_completeness auto
termination
proof (relation "measure length")
  fix s w
  assume "find (\<lambda>w. suffix w s) wsChars = Some w"
  then have "w \<in> set wsChars" and "suffix w s"
    by (auto simp: find_Some_iff)
  then have "w \<noteq> []" and "length w \<le> length s"
    by (auto simp: wsChars_nonempty suffix_length_le)
  then show "(take (length s - length w) s, s) \<in> measure length"
    by (cases w) auto
qed simp

declare trimStart.simps [simp del] trimEnd.simps [simp del]

definition trim :: "string \<Rightarrow> string" where
  "trim s = trimEnd (trimStart s)"

text \<open>
  The lower case of the ASCII letters; every other byte is left as it is.
  \<^verbatim>\<open>String.prototype.toLowerCase\<close> agrees with it on every text of ASCII characters and
  differs on letters outside ASCII, so the search handler below takes the built-in
  function as a parameter and this one is an instance of it.
\<close>

definition lowerChar :: "char \<Rightarrow> char" where
  "lowerChar c = (let n = of_char c :: nat in if 65 \<le> n \<and> n \<le> 90 then char_of (n + 32) else c)"

definition asciiLowerCase :: "string \<Rightarrow> string" where
  "asciiLowerCase s = map lowerChar s"

definition isAscii :: "char \<Rightarrow> bool" where
  "isAscii c = (of_char c < (128 :: nat))"

text \<open>\<^verbatim>\<open>s.includes(q)\<close>: \<open>q\<close> occurs in \<open>s\<close> as a contiguous run.\<close>

fun includesStr :: "string \<Rightarrow> string \<Rightarrow> bool" where
  "includesStr [] q = (q = [])"
| "includesStr (c # cs) q = (prefix q (c # cs) \<or> includesStr cs q)"

section \<open>Numbers: printing and Number(...)\<close>

text \<open>
  The decimal text of an integer. A template literal prints a safe integer (one below
  \<open>2^53\<close> in magnitude, which a double holds exactly) as this text; from \<open>10^21\<close> on it
  prints an exponent instead, which this function does not do.
\<close>

definition safeInteger :: "int \<Rightarrow> bool" where
  "safeInteger i = (\<bar>i\<bar> < 2 ^ 53)"

fun showNat :: "nat \<Rightarrow> string" where
  "showNat n =
     (if n < 10 then [char_of (48 + n)]
      else showNat (n div 10) @ [char_of (48 + n mod 10)])"

declare showNat.simps [simp del]

definition showInt :: "int \<Rightarrow> string" where
  "showInt i = (if i < 0 then CHR ''-'' # showNat (nat (- i)) else showNat (nat i))"

definition isDigit :: "char \<Rightarrow> bool" where
  "isDigit c = (let n = of_char c :: nat in 48 \<le> n \<and> n \<le> 57)"

text \<open>A digit or the minus sign: the characters of the decimal text of an integer.\<close>

definition plainEnd :: "char \<Rightarrow> bool" where
  "plainEnd c = (isDigit c \<or> of_char c = (45 :: nat))"

definition digitsVal :: "string \<Rightarrow> nat" where
  "digitsVal ds = foldl (\<lambda>a c. 10 * a + (of_char c - 48)) 0 ds"

definition hexVal :: "char \<Rightarrow> nat option" where
  "hexVal c =
     (let n = of_char c :: nat in
      if 48 \<le> n \<and> n \<le> 57 then Some (n - 48)
      else if 65 \<le> n \<and> n \<le> 70 then Some (n - 55)
      else if 97 \<le> n \<and> n \<le> 102 then Some (n - 87)
      else None)"

text \<open>
  The grammar of \<^verbatim>\<open>StringToNumber\<close>: white space is trimmed; the empty string is 0; a
  decimal literal has an optional sign, then \<^verbatim>\<open>Infinity\<close> or digits with an optional
  fraction and an optional exponent; a binary, octal or hexadecimal literal has a prefix
  and no sign; every other string is \<^verbatim>\<open>NaN\<close>. Values are exact: the rounding to a
  double is not modelled, so the function is that of the code on the literals whose
  value a double holds exactly, the decimal text of every safe integer among them.
\<close>

definition signed :: "string \<Rightarrow> bool \<times> string" where
  "signed t =
     (case t of
        [] \<Rightarrow> (False, [])
      | c # u \<Rightarrow>
          if c = CHR ''-'' then (True, u)
          else if c = CHR ''+'' then (False, u)
          else (False, t))"

definition exponentPart :: "string \<Rightarrow> int option" where
  "exponentPart r =
     (case r of
        [] \<Rightarrow> Some 0
      | e # ds \<Rightarrow>
          if e = CHR ''e'' \<or> e = CHR ''E'' then
            (case signed ds of
               (neg, body) \<Rightarrow>
                 if body \<noteq> [] \<and> list_all isDigit body
                 then Some ((if neg then - 1 else 1) * int (digitsVal body))
                 else None)
          else None)"

definition decimalValue :: "bool \<Rightarrow> nat \<Rightarrow> int \<Rightarrow> jsnum" where
  "decimalValue neg m k =
     (let sg = (if neg then - 1 else 1 :: int) in
      if 0 \<le> k then Num (sg * int (m * 10 ^ nat k))
      else if 10 ^ nat (- k) dvd m then Num (sg * int (m div 10 ^ nat (- k)))
      else NonInt)"

definition StrDecimalLiteral :: "string \<Rightarrow> jsnum option" where
  "StrDecimalLiteral t =
     (case signed t of
        (neg, body) \<Rightarrow>
          if body = ''Infinity'' then Some NonInt
          else
            (let ip = takeWhile isDigit body;
                 r1 = dropWhile isDigit body;
                 dot = (r1 \<noteq> [] \<and> hd r1 = CHR ''.'');
                 fp = (if dot then takeWhile isDigit (tl r1) else []);
                 r2 = (if dot then dropWhile isDigit (tl r1) else r1)
             in if ip = [] \<and> fp = [] then None
                else (case exponentPart r2 of
                        None \<Rightarrow> None
                      | Some e \<Rightarrow>
                          Some (decimalValue neg (digitsVal (ip @ fp)) (e - int (length fp))))))"

definition radixDigits :: "nat \<Rightarrow> string \<Rightarrow> nat option" where
  "radixDigits base ds =
     (if ds \<noteq> [] \<and> list_all (\<lambda>c. case hexVal c of None \<Rightarrow> False | Some d \<Rightarrow> d < base) ds
      then Some (foldl (\<lambda>a c. base * a + (case hexVal c of None \<Rightarrow> 0 | Some d \<Rightarrow> d)) 0 ds)
      else None)"

definition NonDecimalIntegerLiteral :: "string \<Rightarrow> nat option" where
  "NonDecimalIntegerLiteral t =
     (case t of
        z # p # ds \<Rightarrow>
          if z \<noteq> CHR ''0'' then None
          else if p = CHR ''b'' \<or> p = CHR ''B'' then radixDigits 2 ds
          else if p = CHR ''o'' \<or> p = CHR ''O'' then radixDigits 8 ds
          else if p = CHR ''x'' \<or> p = CHR ''X'' then radixDigits 16 ds
          else None
      | _ \<Rightarrow> None)"

definition StringToNumber :: "string \<Rightarrow> jsnum" where
  "StringToNumber s =
     (let t = trim s in
      if t = [] then Num 0
      else (case StrDecimalLiteral t of
              Some v \<Rightarrow> v
            | None \<Rightarrow>
                (case NonDecimalIntegerLiteral t of
                   Some n \<Rightarrow> Num (int n)
                 | None \<Rightarrow> NaN)))"

text \<open>\<^verbatim>\<open>Number(v)\<close> for the values the program hands to it: \<^verbatim>\<open>null\<close>, a number, or a
  string from the deep link.\<close>

fun Number :: "jsval \<Rightarrow> jsnum" where
  "Number VNull = Num 0"
| "Number (VNum n) = n"
| "Number (VStr s) = StringToNumber s"

section \<open>The deep-link codec: parseHash and updateHash\<close>

text \<open>The exceptions that are not caught where they are thrown: the \<^verbatim>\<open>URIError\<close> of
  \<^verbatim>\<open>decodeURIComponent\<close>, and a \<^verbatim>\<open>TypeError\<close> with its message.\<close>

datatype jserror = URIError | TypeError string

text \<open>
  \<^verbatim>\<open>decodeURIComponent\<close>: a character other than \<open>%\<close> is copied; \<open>%\<close> needs two
  hexadecimal digits; an octet below 128 is a character; a lead octet announces one to
  three continuation octets, each written as an escape of its own, and the octets must be
  well-formed UTF-8. Everything else raises \<^verbatim>\<open>URIError\<close> (here \<open>None\<close>). \<open>pending\<close>
  counts the continuation octets still expected, \<open>octets\<close> holds those read so far.
\<close>

definition cont :: "nat \<Rightarrow> bool" where
  "cont b = (128 \<le> b \<and> b \<le> 191)"

fun validUtf8 :: "nat list \<Rightarrow> bool" where
  "validUtf8 [b0, b1] = (194 \<le> b0 \<and> b0 \<le> 223 \<and> cont b1)"
| "validUtf8 [b0, b1, b2] =
     (cont b2 \<and>
      (if b0 = 224 then 160 \<le> b1 \<and> b1 \<le> 191
       else if b0 = 237 then 128 \<le> b1 \<and> b1 \<le> 159
       else 225 \<le> b0 \<and> b0 \<le> 239 \<and> cont b1))"
| "validUtf8 [b0, b1, b2, b3] =
     (cont b2 \<and> cont b3 \<and>
      (if b0 = 240 then 144 \<le> b1 \<and> b1 \<le> 191
       else if b0 = 244 then 128 \<le> b1 \<and> b1 \<le> 143
       else 241 \<le> b0 \<and> b0 \<le> 243 \<and> cont b1))"
| "validUtf8 _ = False"

definition leadingOnes :: "nat \<Rightarrow> nat" where
  "leadingOnes b =
     (if b < 128 then 0 else if b < 192 then 1 else if b < 224 then 2
      else if b < 240 then 3 else if b < 248 then 4 else 5)"

fun decodeFrom :: "nat \<Rightarrow> nat list \<Rightarrow> string \<Rightarrow> string option" where
  "decodeFrom pending octets [] = (if pending = 0 then Some [] else None)"
| "decodeFrom pending octets (c # cs) =
     (if c \<noteq> CHR ''%'' then
        (if pending = 0 then map_option ((#) c) (decodeFrom 0 [] cs) else None)
      else
        (case cs of
           h1 # h2 # rest \<Rightarrow>
             (case (hexVal h1, hexVal h2) of
                (Some a, Some b) \<Rightarrow>
                  (let B = 16 * a + b in
                   if pending = 0 then
                     (let n = leadingOnes B in
                      if n = 0 then map_option ((#) (char_of B)) (decodeFrom 0 [] rest)
                      else if n = 1 \<or> 4 < n then None
                      else decodeFrom (n - 1) [B] rest)
                   else if pending = 1 then
                     (if validUtf8 (octets @ [B])
                      then map_option ((@) (map char_of (octets @ [B]))) (decodeFrom 0 [] rest)
                      else None)
                   else decodeFrom (pending - 1) (octets @ [B]) rest)
              | _ \<Rightarrow> None)
         | _ \<Rightarrow> None))"

text \<open>The argument is \<^verbatim>\<open>undefined\<close> (\<open>None\<close>) for a pair without \<open>=\<close>; its text is then
  \<^verbatim>\<open>"undefined"\<close>.\<close>

definition decodeURIComponent :: "string option \<Rightarrow> string option" where
  "decodeURIComponent v = decodeFrom 0 [] (case v of None \<Rightarrow> ''undefined'' | Some s \<Rightarrow> s)"

type_synonym params = "string \<rightharpoonup> string"

text \<open>\<^verbatim>\<open>result[k] = v\<close> on a plain object: the key \<^verbatim>\<open>__proto__\<close> reaches the prototype
  setter, which ignores a string and stores nothing.\<close>

definition setProp :: "params \<Rightarrow> string \<Rightarrow> string \<Rightarrow> params" where
  "setProp r k v = (if k = ''__proto__'' then r else r(k \<mapsto> v))"

text \<open>The body of \<^verbatim>\<open>pairs.forEach(([k,v]) => { if (k) result[k] = decodeURIComponent(v); })\<close>
  for one pair: \<open>k\<close> and \<open>v\<close> are the first two pieces, anything after them is ignored.\<close>

fun storePair :: "string list \<Rightarrow> params \<Rightarrow> jserror + params" where
  "storePair [] r = Inr r"
| "storePair (k # vs) r =
     (if k = [] then Inr r
      else (case decodeURIComponent (case vs of [] \<Rightarrow> None | v # _ \<Rightarrow> Some v) of
              None \<Rightarrow> Inl URIError
            | Some d \<Rightarrow> Inr (setProp r k d)))"

fun forEachPair :: "string list list \<Rightarrow> params \<Rightarrow> jserror + params" where
  "forEachPair [] r = Inr r"
| "forEachPair (p # ps) r =
     (case storePair p r of
        Inl e \<Rightarrow> Inl e
      | Inr r' \<Rightarrow> forEachPair ps r')"

text \<open>\<^verbatim>\<open>parseHash\<close>, with \<^verbatim>\<open>location.hash\<close> as its argument.\<close>

definition stripHash :: "string \<Rightarrow> string" where
  "stripHash locHash =
     (case locHash of
        [] \<Rightarrow> []
      | c # cs \<Rightarrow> if c = CHR ''#'' then cs else locHash)"

definition parseHash :: "string \<Rightarrow> jserror + params" where
  "parseHash locHash =
     (let hash = stripHash locHash
      in if hash = [] then Inr Map.empty
         else forEachPair (map (splitOn CHR ''='') (splitOn CHR ''&'' hash)) Map.empty)"

text \<open>
  \<^verbatim>\<open>updateHash(params)\<close>. Its one caller passes \<^verbatim>\<open>book.id\<close> and a chapter number that a
  chapter of the book carries, so both parameters are integers; \<open>None\<close> is a key that
  the object does not have. \<open>hashUrl\<close> is the third argument of
  \<^verbatim>\<open>history.replaceState\<close>.
\<close>

definition truthy :: "int option \<Rightarrow> bool" where
  "truthy v = (case v of None \<Rightarrow> False | Some i \<Rightarrow> i \<noteq> 0)"

definition showParam :: "int option \<Rightarrow> string" where
  "showParam v = (case v of None \<Rightarrow> ''undefined'' | Some i \<Rightarrow> showInt i)"

definition hashParts :: "int option \<Rightarrow> int option \<Rightarrow> string list" where
  "hashParts book chap =
     (if truthy book then [''book='' @ showParam book] else [])
     @ (if truthy chap then [''chapter='' @ showParam chap] else [])"

definition hashUrl :: "int option \<Rightarrow> int option \<Rightarrow> string" where
  "hashUrl book chap =
     (let h = joinWith ''&'' (hashParts book chap)
      in if h \<noteq> [] then CHR ''#'' # h else '' '')"

text \<open>What \<^verbatim>\<open>location.hash\<close> reads after \<^verbatim>\<open>history.replaceState(null, "", url)\<close>: the
  URL \<^verbatim>\<open>" "\<close> resolves to the page's address without a fragment.\<close>

definition hashAfter :: "string \<Rightarrow> string" where
  "hashAfter url = (if url = '' '' then [] else url)"

section \<open>The state of the page\<close>

text \<open>
  What a fetch of a book file can put into the cache: a book, or a JSON value that has no
  array of chapters (\<^verbatim>\<open>{}\<close> or \<^verbatim>\<open>null\<close>, say). Of such a value the program sees whether
  it is truthy, and the messages of the \<^verbatim>\<open>TypeError\<close>s that it raises where its chapters
  are read: in \<^verbatim>\<open>renderChaptersView\<close>, at \<^verbatim>\<open>book.chapters.find\<close> in \<^verbatim>\<open>openChapter\<close>, and
  at \<^verbatim>\<open>cached.chapters.some\<close> in the search. A JSON value that has an array of chapters
  and is still no book (a chapter without verses, say) is not modelled.
\<close>

datatype cached =
    Book BookContent
  | NotBook (truthyValue: bool) (drawError: string) (findError: string) (someError: string)

text \<open>\<^verbatim>\<open>let book = bookCache[key]; if (!book) ...\<close>: an entry counts when it is truthy.\<close>

definition ifTruthy :: "cached option \<Rightarrow> cached option" where
  "ifTruthy e =
     (case e of
        None \<Rightarrow> None
      | Some (Book book) \<Rightarrow> e
      | Some (NotBook t d f s) \<Rightarrow> if t then e else None)"

text \<open>
  \<open>titleText\<close> is the text of the title element, \<open>mainClass\<close> the class of the main
  element and \<open>mainContent\<close> what was last put into it, \<open>booksGrid\<close> the summaries drawn as
  cards and \<open>booksListSmall\<close> those listed in the drawer. \<open>locationHash\<close> is
  \<^verbatim>\<open>location.hash\<close> and \<open>replaced\<close> the URLs handed to \<^verbatim>\<open>history.replaceState\<close>, oldest
  first. \<open>alerts\<close> are the messages shown by \<^verbatim>\<open>alert\<close>, \<open>fetches\<close> the paths of the book
  files requested with \<^verbatim>\<open>fetch\<close>, \<open>gridErrors\<close> the notices written into the grid in place
  of cards, and \<open>uncaught\<close> the exceptions that no handler caught, all oldest first.
  \<open>bookCache\<close> is keyed by the value in the brackets: \<open>None\<close> is the key \<^verbatim>\<open>null\<close>.
\<close>

datatype title = TLoading | TBooks | TName string | TChapter string jsnum

datatype view = Untouched | ChaptersOf BookContent | VersesOf Chapter | ChapterNotFound

record state =
  booksIndex :: "BookSummary list"
  bookCache :: "jsnum option \<rightharpoonup> cached"
  currentBookId :: "jsnum option"
  currentChapter :: "jsnum option"
  titleText :: title
  backHidden :: bool
  mainClass :: string
  mainContent :: view
  booksGrid :: "BookSummary list"
  booksListSmall :: "BookSummary list"
  locationHash :: string
  replaced :: "string list"
  alerts :: "string list"
  fetches :: "string list"
  gridErrors :: "string list"
  uncaught :: "jserror list"

definition updateHash :: "int option \<Rightarrow> int option \<Rightarrow> state \<Rightarrow> state" where
  "updateHash book chap st =
     st\<lparr>locationHash := hashAfter (hashUrl book chap),
        replaced := replaced st @ [hashUrl book chap]\<rparr>"

definition showBooks :: "state \<Rightarrow> state" where
  "showBooks st =
     st\<lparr>currentBookId := None, currentChapter := None, titleText := TBooks,
        backHidden := True, mainClass := ''page books-page''\<rparr>"

definition renderBooksGrid :: "BookSummary list \<Rightarrow> state \<Rightarrow> state" where
  "renderBooksGrid list st = st\<lparr>booksGrid := list\<rparr>"

definition renderBooksSmallList :: "BookSummary list \<Rightarrow> state \<Rightarrow> state" where
  "renderBooksSmallList list st = st\<lparr>booksListSmall := list\<rparr>"

definition renderChaptersView :: "BookContent \<Rightarrow> state \<Rightarrow> state" where
  "renderChaptersView book st =
     st\<lparr>mainClass := ''page chapters-page'', titleText := TName (b_name book),
        mainContent := ChaptersOf book\<rparr>"

text \<open>
  A call returns, or throws an exception with a message. The one handler of the
  exceptions below is the \<^verbatim>\<open>catch\<close> block of \<^verbatim>\<open>openBook\<close>, which at once writes the title,
  the class of the main element, the current book and the current chapter; what the call
  had written to those before it threw is left out of the state that \<open>Threw\<close> carries.
\<close>

datatype run = Returned state | Threw string state

text \<open>
  \<^verbatim>\<open>openChapter(bookId, chapterNumber)\<close>. Every caller passes \<^verbatim>\<open>book.id\<close> and a number.
  Where \<^verbatim>\<open>find\<close> succeeds, \<^verbatim>\<open>chapterNumber\<close> is strictly equal to the number of the
  chapter found, which is what \<open>updateHash\<close> gets here.
\<close>

definition openChapter :: "int \<Rightarrow> jsnum \<Rightarrow> state \<Rightarrow> run" where
  "openChapter bookId chapterNumber st =
     (case ifTruthy (bookCache st (Some (Num bookId))) of
        None \<Rightarrow> Returned st
      | Some (NotBook t d f s) \<Rightarrow> Threw f st
      | Some (Book book) \<Rightarrow>
          (let st1 = st\<lparr>currentChapter := Some chapterNumber,
                         titleText := TChapter (b_name book) chapterNumber,
                         mainClass := ''page verses-page''\<rparr>
           in (case find (\<lambda>c. Num (number c) = chapterNumber) (chapters book) of
                 None \<Rightarrow> Returned (st1\<lparr>mainContent := ChapterNotFound\<rparr>)
               | Some ch \<Rightarrow>
                   Returned (updateHash (Some bookId) (Some (number ch))
                     (st1\<lparr>mainContent := VersesOf ch\<rparr>)))))"

subsection \<open>fetchJson\<close>

text \<open>What the network answers to one \<^verbatim>\<open>fetch\<close>: the request fails, the status is not
  ok, the body is no JSON, or the body is JSON.\<close>

datatype 'a response = NetworkError string | NotOk | BadJson string | Json 'a

text \<open>\<open>Inl\<close> carries the message of the error thrown.\<close>

fun fetchJson :: "string \<Rightarrow> 'a response \<Rightarrow> string + 'a" where
  "fetchJson path (NetworkError msg) = Inl msg"
| "fetchJson path NotOk = Inl (''Failed to fetch '' @ path)"
| "fetchJson path (BadJson msg) = Inl msg"
| "fetchJson path (Json body) = Inr body"

subsection \<open>openBook\<close>

text \<open>
  \<^verbatim>\<open>openBook\<close> is asynchronous: it runs to its \<^verbatim>\<open>await\<close> (\<open>openBook_begin\<close>), and after
  the response has arrived it runs to its end (\<open>openBook_resume\<close>). Other handlers can
  run in between. A call that finds the book in the cache never waits.
  \<open>chapterArg\<close> is \<^verbatim>\<open>options.chapter\<close>: absent, or the text from the deep link.
\<close>

record options =
  chapterArg :: "string option"
  showChaptersOnly :: bool

definition noOptions :: options where
  "noOptions = \<lparr>chapterArg = None, showChaptersOnly = False\<rparr>"

record waiting =
  w_options :: options
  w_file :: string

datatype outcome = Done state | Await state waiting

text \<open>The \<^verbatim>\<open>catch\<close> block.\<close>

definition openBook_catch :: "string \<Rightarrow> state \<Rightarrow> state" where
  "openBook_catch msg st =
     showBooks (st\<lparr>titleText := TBooks, alerts := alerts st @ [''Failed to open book: '' @ msg]\<rparr>)"

text \<open>From \<^verbatim>\<open>renderChaptersView(book)\<close> to the end of the \<^verbatim>\<open>try\<close> block, for the value
  that the cache or the network gave. \<^verbatim>\<open>renderChaptersView\<close> throws on a value without an
  array of chapters before it puts anything into the main element.\<close>

definition openBook_show :: "cached \<Rightarrow> options \<Rightarrow> state \<Rightarrow> run" where
  "openBook_show entry opts st =
     (case entry of
        NotBook t d f s \<Rightarrow> Threw d st
      | Book book \<Rightarrow>
          (let st1 = renderChaptersView book st;
               rest = (if showChaptersOnly opts then Returned st1
                       else openChapter (b_id book)
                              (case chapters book of [] \<Rightarrow> Num 1 | c # _ \<Rightarrow> Num (number c)) st1)
           in (case chapterArg opts of
                 None \<Rightarrow> rest
               | Some c \<Rightarrow>
                   if c \<noteq> [] then openChapter (b_id book) (Number (VStr c)) st1 else rest)))"

text \<open>The end of the \<^verbatim>\<open>try\<close> block: an exception thrown in it reaches the \<^verbatim>\<open>catch\<close> block.\<close>

definition openBook_try :: "run \<Rightarrow> state" where
  "openBook_try r = (case r of Returned st \<Rightarrow> st | Threw msg st \<Rightarrow> openBook_catch msg st)"

definition openBook_begin :: "jsval \<Rightarrow> options \<Rightarrow> state \<Rightarrow> outcome" where
  "openBook_begin bookId opts st =
     (let st1 = st\<lparr>currentBookId := Some (Number bookId), titleText := TLoading,
                    backHidden := False\<rparr>
      in (case ifTruthy (bookCache st1 (currentBookId st1)) of
            Some entry \<Rightarrow> Done (openBook_try (openBook_show entry opts st1))
          | None \<Rightarrow>
              (case find (\<lambda>b. Num (s_id b) = Number bookId) (booksIndex st1) of
                 None \<Rightarrow> Done (openBook_catch ''Book meta not found'' st1)
               | Some meta \<Rightarrow>
                   Await (st1\<lparr>fetches := fetches st1 @ [s_file meta]\<rparr>)
                     \<lparr>w_options = opts, w_file = s_file meta\<rparr>)))"

definition openBook_resume :: "waiting \<Rightarrow> cached response \<Rightarrow> state \<Rightarrow> state" where
  "openBook_resume w resp st =
     (case fetchJson (w_file w) resp of
        Inl msg \<Rightarrow> openBook_catch msg st
      | Inr entry \<Rightarrow>
          openBook_try (openBook_show entry (w_options w)
            (st\<lparr>bookCache := (bookCache st)(currentBookId st \<mapsto> entry)\<rparr>)))"

text \<open>A call during which nothing else runs: the answer of the network to the path
  requested is \<open>net path\<close>.\<close>

definition openBook ::
  "(string \<Rightarrow> cached response) \<Rightarrow> jsval \<Rightarrow> options \<Rightarrow> state \<Rightarrow> state" where
  "openBook net bookId opts st =
     (case openBook_begin bookId opts st of
        Done st' \<Rightarrow> st'
      | Await st' w \<Rightarrow> openBook_resume w (net (w_file w)) st')"

subsection \<open>The handlers: back button, deep link, search\<close>

definition backBtn_click :: "state \<Rightarrow> outcome" where
  "backBtn_click st =
     (if currentChapter st \<noteq> None then
        openBook_begin (case currentBookId st of None \<Rightarrow> VNull | Some n \<Rightarrow> VNum n)
          \<lparr>chapterArg = None, showChaptersOnly = True\<rparr> st
      else Done (showBooks st))"

text \<open>\<^verbatim>\<open>handleDeepLink\<close>: \<open>Inl\<close> when \<^verbatim>\<open>parseHash\<close> throws.\<close>

definition handleDeepLink :: "state \<Rightarrow> jserror + outcome" where
  "handleDeepLink st =
     (case parseHash (locationHash st) of
        Inl e \<Rightarrow> Inl e
      | Inr h \<Rightarrow>
          (case h ''book'' of
             None \<Rightarrow> Inr (Done st)
           | Some b \<Rightarrow>
               if b = [] then Inr (Done st)
               else Inr (openBook_begin (VStr b)
                      \<lparr>chapterArg = h ''chapter'', showChaptersOnly = False\<rparr> st)))"

text \<open>
  The search. \<open>lc\<close> stands for \<^verbatim>\<open>String.prototype.toLowerCase\<close>. \<open>matchBook\<close> is the
  callback of the filter for one summary and \<open>filterBooks\<close> the filter: the callback runs
  on the summaries in order, and an exception it throws ends the filter. The handler has
  no \<^verbatim>\<open>try\<close>: an exception ends it before it draws anything.
\<close>

definition matchBook ::
  "(string \<Rightarrow> string) \<Rightarrow> (jsnum option \<rightharpoonup> cached) \<Rightarrow> string \<Rightarrow> BookSummary \<Rightarrow> jserror + bool" where
  "matchBook lc cache q b =
     (if includesStr (lc (s_name b)) q then Inr True
      else (case ifTruthy (cache (Some (Num (s_id b)))) of
              None \<Rightarrow> Inr False
            | Some (NotBook t d f s) \<Rightarrow> Inl (TypeError s)
            | Some (Book book) \<Rightarrow>
                Inr (list_ex (\<lambda>ch. list_ex (\<lambda>v. includesStr (lc v) q) (verses ch))
                       (chapters book))))"

fun filterBooks ::
  "(string \<Rightarrow> string) \<Rightarrow> BookSummary list \<Rightarrow> (jsnum option \<rightharpoonup> cached) \<Rightarrow> string
     \<Rightarrow> jserror + BookSummary list" where
  "filterBooks lc [] cache q = Inr []"
| "filterBooks lc (b # bs) cache q =
     (case matchBook lc cache q b of
        Inl e \<Rightarrow> Inl e
      | Inr m \<Rightarrow>
          (case filterBooks lc bs cache q of
             Inl e \<Rightarrow> Inl e
           | Inr kept \<Rightarrow> Inr (if m then b # kept else kept)))"

definition searchInput_with :: "(string \<Rightarrow> string) \<Rightarrow> string \<Rightarrow> state \<Rightarrow> state" where
  "searchInput_with lc val st =
     (let q = lc (trim val)
      in if q = [] then renderBooksGrid (booksIndex st) st
         else (case filterBooks lc (booksIndex st) (bookCache st) q of
                 Inl e \<Rightarrow> st\<lparr>uncaught := uncaught st @ [e]\<rparr>
               | Inr filtered \<Rightarrow> renderBooksGrid filtered st))"

text \<open>The handler with the lower case of the ASCII letters for \<open>lc\<close>.\<close>

definition searchInput :: "string \<Rightarrow> state \<Rightarrow> state" where
  "searchInput val st = searchInput_with asciiLowerCase val st"

subsection \<open>Start-up\<close>

text \<open>
  \<^verbatim>\<open>loadIndex\<close> from the arrival of the answer for the index. It calls
  \<^verbatim>\<open>handleDeepLink()\<close> without \<^verbatim>\<open>await\<close>: the call runs to the \<^verbatim>\<open>await\<close> of \<^verbatim>\<open>openBook\<close>, if
  it gets there, and \<^verbatim>\<open>loadIndex\<close> returns; an exception of \<^verbatim>\<open>parseHash\<close> rejects a promise
  that nobody handles. The result is the state and what \<^verbatim>\<open>openBook\<close> still waits for.
\<close>

definition loadIndex :: "BookSummary list response \<Rightarrow> state \<Rightarrow> state \<times> waiting option" where
  "loadIndex answer st =
     (case fetchJson ''books-index.json'' answer of
        Inl msg \<Rightarrow>
          (st\<lparr>booksGrid := [], gridErrors := gridErrors st @ [''Error loading index: '' @ msg]\<rparr>,
           None)
      | Inr index \<Rightarrow>
          (let st1 = renderBooksSmallList index (renderBooksGrid index (st\<lparr>booksIndex := index\<rparr>))
           in (case handleDeepLink st1 of
                 Inl e \<Rightarrow> (st1\<lparr>uncaught := uncaught st1 @ [e]\<rparr>, None)
               | Inr (Done st2) \<Rightarrow> (st2, None)
               | Inr (Await st2 w) \<Rightarrow> (st2, Some w))))"

text \<open>\<^verbatim>\<open>loadInitial\<close>: \<^verbatim>\<open>await loadIndex(); showBooks();\<close>. \<^verbatim>\<open>showBooks\<close> runs as soon as
  \<^verbatim>\<open>loadIndex\<close> has returned, before any answer for a book can arrive.\<close>

definition loadInitial :: "BookSummary list response \<Rightarrow> state \<Rightarrow> state \<times> waiting option" where
  "loadInitial answer st = (case loadIndex answer st of (st1, w) \<Rightarrow> (showBooks st1, w))"

text \<open>Start-up to its end: after \<^verbatim>\<open>loadInitial\<close>, the answer for the book of the deep link
  arrives, with nothing else running before it.\<close>

definition startUp ::
  "BookSummary list response \<Rightarrow> (string \<Rightarrow> cached response) \<Rightarrow> state \<Rightarrow> state" where
  "startUp answer net st =
     (case loadInitial answer st of
        (st1, None) \<Rightarrow> st1
      | (st1, Some w) \<Rightarrow> openBook_resume w (net (w_file w)) st1)"

text \<open>A click on the card of a book: \<^verbatim>\<open>openBook(b.id)\<close>, with nothing else running
  before the answer of the network.\<close>

definition selectBook :: "(string \<Rightarrow> cached response) \<Rightarrow> int \<Rightarrow> state \<Rightarrow> state" where
  "selectBook net x st = openBook net (VNum (Num x)) noOptions st"

text \<open>The state in which a handler hands control back, finished or waiting.\<close>

fun stateOf :: "outcome \<Rightarrow> state" where
  "stateOf (Done st) = st"
| "stateOf (Await st w) = st"

section \<open>Notions of the specification\<close>

text \<open>
  The navigation states of the specification, and when the page is in one: the screen is
  the class of the main element, the active book and chapter are \<^verbatim>\<open>currentBookId\<close> and
  \<^verbatim>\<open>currentChapter\<close>.
\<close>

datatype nav = Library | ChapterList int | VerseList int int

fun inState :: "state \<Rightarrow> nav \<Rightarrow> bool" where
  "inState st Library =
     (mainClass st = ''page books-page'' \<and> currentBookId st = None \<and> currentChapter st = None)"
| "inState st (ChapterList b) =
     (mainClass st = ''page chapters-page'' \<and> currentBookId st = Some (Num b)
      \<and> currentChapter st = None)"
| "inState st (VerseList b n) =
     (mainClass st = ''page verses-page'' \<and> currentBookId st = Some (Num b)
      \<and> currentChapter st = Some (Num n))"

text \<open>
  The codec of the specification on the code's two functions. \<open>encode\<close> is what
  \<^verbatim>\<open>location.hash\<close> reads after \<^verbatim>\<open>updateHash\<close> has written the ids of the state.
  \<open>decode\<close> is \<^verbatim>\<open>parseHash\<close> followed by the reading its caller makes of the two keys:
  a key counts when its text is truthy (\<^verbatim>\<open>if (h.book)\<close>, \<^verbatim>\<open>if (options.chapter)\<close>), and
  its value is \<^verbatim>\<open>Number\<close> of the text.
\<close>

fun idsOf :: "nav \<Rightarrow> int option \<times> int option" where
  "idsOf Library = (None, None)"
| "idsOf (ChapterList b) = (Some b, None)"
| "idsOf (VerseList b n) = (Some b, Some n)"

definition encode :: "nav \<Rightarrow> string" where
  "encode s = hashAfter (hashUrl (fst (idsOf s)) (snd (idsOf s)))"

definition numberOf :: "string option \<Rightarrow> jsnum option" where
  "numberOf v =
     (case v of
        None \<Rightarrow> None
      | Some t \<Rightarrow> if t = [] then None else Some (Number (VStr t)))"

definition decode :: "string \<Rightarrow> jserror + (jsnum option \<times> jsnum option)" where
  "decode locHash =
     (case parseHash locHash of
        Inl e \<Rightarrow> Inl e
      | Inr h \<Rightarrow> Inr (numberOf (h ''book''), numberOf (h ''chapter'')))"

fun nonzeroIds :: "nav \<Rightarrow> bool" where
  "nonzeroIds Library = True"
| "nonzeroIds (ChapterList b) = (b \<noteq> 0)"
| "nonzeroIds (VerseList b n) = (b \<noteq> 0 \<and> n \<noteq> 0)"

text \<open>
  A URL has the key \<open>k\<close>: it is \<open>#\<close> followed by text in which \<open>k\<close> and \<open>=\<close> stand at
  the start or right after an \<open>&\<close>.
\<close>

definition hasKey :: "string \<Rightarrow> string \<Rightarrow> bool" where
  "hasKey k url =
     (\<exists>pre post. url = CHR ''#'' # pre @ k @ ''='' @ post \<and> (pre = [] \<or> last pre = CHR ''&''))"

text \<open>
  The pairs of a fragment: it is split on \<open>&\<close>, each piece on \<open>=\<close>; the key is the first
  part, the value the second, absent when the piece has no \<open>=\<close>. \<open>storedParams\<close> is the
  object that holds, under every key that is neither empty nor \<^verbatim>\<open>__proto__\<close>, the
  decoded value of the last pair with that key. \<open>decodable\<close>: the value of every pair
  with a key is a well-formed percent-encoding.
\<close>

definition keyValue :: "string list \<Rightarrow> string \<times> string option" where
  "keyValue p =
     (case p of
        [] \<Rightarrow> ([], None)
      | [k] \<Rightarrow> (k, None)
      | k # v # _ \<Rightarrow> (k, Some v))"

definition fragmentPairs :: "string \<Rightarrow> (string \<times> string option) list" where
  "fragmentPairs locHash =
     map keyValue (map (splitOn CHR ''='') (splitOn CHR ''&'' (stripHash locHash)))"

definition storedParams :: "string \<Rightarrow> params" where
  "storedParams locHash =
     (\<lambda>k. if k = [] \<or> k = ''__proto__'' then None
          else (case map_of (rev (fragmentPairs locHash)) k of
                  None \<Rightarrow> None
                | Some v \<Rightarrow> decodeURIComponent v))"

definition decodable :: "string \<Rightarrow> bool" where
  "decodable locHash =
     list_all (\<lambda>p. fst p = [] \<or> decodeURIComponent (snd p) \<noteq> None) (fragmentPairs locHash)"

definition noKnownKey :: "string \<Rightarrow> bool" where
  "noKnownKey locHash =
     list_all (\<lambda>p. fst p \<noteq> ''book'' \<and> fst p \<noteq> ''chapter'') (fragmentPairs locHash)"

text \<open>The same object for a list of pieces stored into an object \<open>r\<close> that is not empty.\<close>

definition stored :: "string list list \<Rightarrow> params \<Rightarrow> params" where
  "stored ps r =
     (\<lambda>k. case map_of (rev (map keyValue ps)) k of
            None \<Rightarrow> r k
          | Some v \<Rightarrow> if k = [] \<or> k = ''__proto__'' then r k else decodeURIComponent v)"

text \<open>What \<^verbatim>\<open>h[k]\<close> reads after \<^verbatim>\<open>h = parseHash()\<close>.\<close>

definition readKey :: "jserror + params \<Rightarrow> string \<Rightarrow> jserror + string option" where
  "readKey res k = (case res of Inl e \<Rightarrow> Inl e | Inr h \<Rightarrow> Inr (h k))"

text \<open>
  \<open>q\<close> occurs in \<open>text\<close>: as a contiguous run. With a function \<open>lc\<close> for the lower case,
  \<open>text\<close> contains \<open>q\<close> case-insensitively when the lower case of \<open>q\<close> occurs in the lower
  case of \<open>text\<close>.
\<close>

definition occursIn :: "string \<Rightarrow> string \<Rightarrow> bool" where
  "occursIn q text = (\<exists>pre post. text = pre @ q @ post)"

text \<open>
  For texts of ASCII characters, without a function for the lower case: two characters are
  the same letter when they are equal, or one is a capital \<open>A\<close> to \<open>Z\<close> and the other
  the small letter 32 places after it; \<open>text\<close> contains \<open>q\<close> up to the case of the letters
  when a run of \<open>text\<close> has the length of \<open>q\<close> and the same letter at every place.
\<close>

definition capital :: "char \<Rightarrow> bool" where
  "capital c = (65 \<le> (of_char c :: nat) \<and> (of_char c :: nat) \<le> 90)"

definition sameLetter :: "char \<Rightarrow> char \<Rightarrow> bool" where
  "sameLetter a b =
     (a = b
      \<or> (capital a \<and> (of_char b :: nat) = of_char a + 32)
      \<or> (capital b \<and> (of_char a :: nat) = of_char b + 32))"

definition containsCI :: "string \<Rightarrow> string \<Rightarrow> bool" where
  "containsCI text q = (\<exists>pre mid post. text = pre @ mid @ post \<and> list_all2 sameLetter mid q)"

text \<open>The summary \<open>b\<close> matches the query \<open>q\<close>: its name contains \<open>q\<close> case-insensitively, or
  its id is in the cache with a book of which some verse of some chapter does.\<close>

definition matches ::
  "(string \<Rightarrow> string) \<Rightarrow> (jsnum option \<rightharpoonup> cached) \<Rightarrow> string \<Rightarrow> BookSummary \<Rightarrow> bool" where
  "matches lc cache q b =
     (occursIn (lc q) (lc (s_name b))
      \<or> (\<exists>book. cache (Some (Num (s_id b))) = Some (Book book)
            \<and> (\<exists>ch \<in> set (chapters book). \<exists>v \<in> set (verses ch). occursIn (lc q) (lc v))))"

text \<open>Every entry of the cache under the id of a summary is a book.\<close>

definition booksOnly :: "BookSummary list \<Rightarrow> (jsnum option \<rightharpoonup> cached) \<Rightarrow> bool" where
  "booksOnly index cache =
     list_all (\<lambda>b. case cache (Some (Num (s_id b))) of
                     Some (NotBook t d f s) \<Rightarrow> False
                   | _ \<Rightarrow> True) index"

text \<open>The content of book \<open>x\<close> loads successfully as \<open>book\<close>: it is in the cache, or
  nothing that counts is, the index has a summary for \<open>x\<close>, and the network answers its
  file with \<open>book\<close>.\<close>

definition loads ::
  "(string \<Rightarrow> cached response) \<Rightarrow> state \<Rightarrow> int \<Rightarrow> BookContent \<Rightarrow> bool" where
  "loads net st x book =
     (case ifTruthy (bookCache st (Some (Num x))) of
        Some entry \<Rightarrow> entry = Book book
      | None \<Rightarrow>
          (case find (\<lambda>b. Num (s_id b) = Num x) (booksIndex st) of
             None \<Rightarrow> False
           | Some meta \<Rightarrow> net (s_file meta) = Json (Book book)))"

text \<open>
  Opening \<open>bookId\<close> fails with message \<open>msg\<close> and nothing has arrived from the network:
  the index has no summary for the id, or \<^verbatim>\<open>fetchJson\<close> throws on its file (the request
  fails, the status is not ok, or the body is no JSON); or, with no request made, the
  value in the cache under the id is truthy and has no chapters to draw.
\<close>

definition failsWith :: "(string \<Rightarrow> cached response) \<Rightarrow> state \<Rightarrow> jsval \<Rightarrow> string option" where
  "failsWith net st bookId =
     (case ifTruthy (bookCache st (Some (Number bookId))) of
        Some (Book book) \<Rightarrow> None
      | Some (NotBook t d f s) \<Rightarrow> Some d
      | None \<Rightarrow>
          (case find (\<lambda>b. Num (s_id b) = Number bookId) (booksIndex st) of
             None \<Rightarrow> Some ''Book meta not found''
           | Some meta \<Rightarrow>
               (case fetchJson (s_file meta) (net (s_file meta)) of
                  Inl msg \<Rightarrow> Some msg
                | Inr entry \<Rightarrow> None)))"

text \<open>
  The value that arrives from the network when \<open>bookId\<close> is opened: no truthy entry of the
  cache is under the id, the index has a summary for it, and the answer for its file is
  JSON. Opening fails on the shape of the content when that value has no chapters.
\<close>

definition arrived :: "(string \<Rightarrow> cached response) \<Rightarrow> state \<Rightarrow> jsval \<Rightarrow> cached option" where
  "arrived net st bookId =
     (case ifTruthy (bookCache st (Some (Number bookId))) of
        Some entry \<Rightarrow> None
      | None \<Rightarrow>
          (case find (\<lambda>b. Num (s_id b) = Number bookId) (booksIndex st) of
             None \<Rightarrow> None
           | Some meta \<Rightarrow>
               (case fetchJson (s_file meta) (net (s_file meta)) of
                  Inl msg \<Rightarrow> None
                | Inr entry \<Rightarrow> Some entry)))"

definition failsOnShape :: "(string \<Rightarrow> cached response) \<Rightarrow> state \<Rightarrow> jsval \<Rightarrow> cached option" where
  "failsOnShape net st bookId =
     (case arrived net st bookId of
        Some (NotBook t d f s) \<Rightarrow> Some (NotBook t d f s)
      | _ \<Rightarrow> None)"

subsection \<open>The scenario of the specification\<close>

text \<open>One book, Genesis, with one chapter of one verse; the page after start-up, showing
  the library; and the page after a tap on Genesis.\<close>

definition genesisSummary :: BookSummary where
  "genesisSummary = \<lparr>s_id = 1, s_name = ''Genesis'', s_file = ''g.json''\<rparr>"

definition genesis :: BookContent where
  "genesis =
     \<lparr>b_id = 1, b_name = ''Genesis'',
      chapters = [\<lparr>number = 1, verses = [''In the beginning'']\<rparr>]\<rparr>"

definition genesisNet :: "string \<Rightarrow> cached response" where
  "genesisNet path = (if path = ''g.json'' then Json (Book genesis) else NotOk)"

definition startState :: state where
  "startState =
     \<lparr>booksIndex = [genesisSummary], bookCache = Map.empty, currentBookId = None,
      currentChapter = None, titleText = TBooks, backHidden = True,
      mainClass = ''page books-page'', mainContent = Untouched, booksGrid = [genesisSummary],
      booksListSmall = [genesisSummary], locationHash = [], replaced = [], alerts = [],
      fetches = [], gridErrors = [], uncaught = []\<rparr>"

definition readingState :: state where
  "readingState = selectBook genesisNet 1 startState"

text \<open>The page as it is loaded from an address that links to chapter 99 of book 1, before
  the index has arrived.\<close>

definition linkedPage :: state where
  "linkedPage =
     startState\<lparr>booksIndex := [], booksGrid := [], booksListSmall := [],
                locationHash := ''#book=1&chapter=99''\<rparr>"

text \<open>Four other networks: one that answers every request with a status that is not
  ok; one that serves Genesis without chapters; one that serves, for the file of
  Genesis, a book that carries the id 2; and one that serves the empty object
  \<^verbatim>\<open>{}\<close>, which is truthy, with the messages of the errors it raises.\<close>

definition downNet :: "string \<Rightarrow> cached response" where
  "downNet path = NotOk"

definition emptyBook :: BookContent where
  "emptyBook = \<lparr>b_id = 1, b_name = ''Genesis'', chapters = []\<rparr>"

definition emptyNet :: "string \<Rightarrow> cached response" where
  "emptyNet path = Json (Book emptyBook)"

definition misfiled :: BookContent where
  "misfiled =
     \<lparr>b_id = 2, b_name = ''Exodus'',
      chapters = [\<lparr>number = 1, verses = [''These are the names'']\<rparr>]\<rparr>"

definition misfiledNet :: "string \<Rightarrow> cached response" where
  "misfiledNet path = Json (Book misfiled)"

definition emptyObject :: cached where
  "emptyObject =
     NotBook True ''Cannot read properties of undefined (reading 'length')''
       ''Cannot read properties of undefined (reading 'find')''
       ''Cannot read properties of undefined (reading 'some')''"

definition emptyObjectNet :: "string \<Rightarrow> cached response" where
  "emptyObjectNet path = Json emptyObject"

text \<open>A library of two books, Genesis in the cache and Exodus not yet opened.\<close>

definition exodusSummary :: BookSummary where
  "exodusSummary = \<lparr>s_id = 2, s_name = ''Exodus'', s_file = ''e.json''\<rparr>"

definition searchState :: state where
  "searchState =
     readingState\<lparr>booksIndex := [genesisSummary, exodusSummary],
                  booksGrid := [genesisSummary, exodusSummary]\<rparr>"

text \<open>The library of two books after a tap on Exodus that the network answered with
  the empty object.\<close>

definition pollutedState :: state where
  "pollutedState =
     selectBook emptyObjectNet 2
       (startState\<lparr>booksIndex := [genesisSummary, exodusSummary],
                   booksGrid := [genesisSummary, exodusSummary]\<rparr>)"

text \<open>A library whose one book has the id 0 and one chapter, numbered 5; and the page
  after a tap on it.\<close>

definition prefaceSummary :: BookSummary where
  "prefaceSummary = \<lparr>s_id = 0, s_name = ''Preface'', s_file = ''p.json''\<rparr>"

definition preface :: BookContent where
  "preface =
     \<lparr>b_id = 0, b_name = ''Preface'',
      chapters = [\<lparr>number = 5, verses = [''To the reader'']\<rparr>]\<rparr>"

definition prefaceNet :: "string \<Rightarrow> cached response" where
  "prefaceNet path = Json (Book preface)"

definition prefaceState :: state where
  "prefaceState =
     selectBook prefaceNet 0
       (startState\<lparr>booksIndex := [prefaceSummary], booksGrid := [prefaceSummary]\<rparr>)"

section \<open>Facts about the string and number functions\<close>

lemma isDigit_digit: "d < 10 \<Longrightarrow> isDigit (char_of (48 + d :: nat))"
  by (simp add: isDigit_def)

lemma showNat_digits: "list_all isDigit (showNat n)"
proof (induction n rule: showNat.induct)
  case (1 n)
  show ?case
  proof (cases "n < 10")
    case True
    then show ?thesis by (subst showNat.simps) (simp add: isDigit_digit)
  next
    case False
    with 1 have "list_all isDigit (showNat (n div 10))" by simp
    moreover have "isDigit (char_of (48 + n mod 10))" by (rule isDigit_digit) simp
    ultimately show ?thesis using False by (subst showNat.simps) simp
  qed
qed

lemma showNat_nonempty: "showNat n \<noteq> []"
  by (subst showNat.simps) simp

lemma digitsVal_snoc: "digitsVal (ds @ [c]) = 10 * digitsVal ds + (of_char c - 48)"
  by (simp add: digitsVal_def)

lemma digitsVal_showNat: "digitsVal (showNat n) = n"
proof (induction n rule: showNat.induct)
  case (1 n)
  show ?case
  proof (cases "n < 10")
    case True
    then show ?thesis by (subst showNat.simps) (simp add: digitsVal_def)
  next
    case False
    with 1 have "digitsVal (showNat (n div 10)) = n div 10" by simp
    then show ?thesis using False
      by (subst showNat.simps) (simp add: digitsVal_snoc)
  qed
qed

lemma splitOn_notin: "sep \<notin> set s \<Longrightarrow> splitOn sep s = [s]"
  by (induction s) auto

lemma splitOn_append: "sep \<notin> set x \<Longrightarrow> splitOn sep (x @ sep # y) = x # splitOn sep y"
  by (induction x) auto

lemma decodeFrom_plain: "CHR ''%'' \<notin> set s \<Longrightarrow> decodeFrom 0 [] s = Some s"
  by (induction s) auto

lemma wsChars_hd: "w \<in> set wsChars \<Longrightarrow> \<not> plainEnd (hd w)"
  by (auto simp: wsChars_def plainEnd_def isDigit_def)

lemma wsChars_last: "w \<in> set wsChars \<Longrightarrow> \<not> plainEnd (last w)"
  by (auto simp: wsChars_def plainEnd_def isDigit_def)

lemma trimStart_plain:
  assumes "s \<noteq> []" "plainEnd (hd s)"
  shows "trimStart s = s"
proof -
  have "\<not> prefix w s" if "w \<in> set wsChars" for w
  proof
    assume "prefix w s"
    moreover have "w \<noteq> []" using that by (rule wsChars_nonempty)
    ultimately have "hd w = hd s" by (auto simp: prefix_def)
    with assms wsChars_hd[OF that] show False by simp
  qed
  then have "find (\<lambda>w. prefix w s) wsChars = None"
    by (simp add: find_None_iff)
  then show ?thesis by (subst trimStart.simps) simp
qed

lemma trimEnd_plain:
  assumes "s \<noteq> []" "plainEnd (last s)"
  shows "trimEnd s = s"
proof -
  have "\<not> suffix w s" if "w \<in> set wsChars" for w
  proof
    assume "suffix w s"
    moreover have "w \<noteq> []" using that by (rule wsChars_nonempty)
    ultimately have "last w = last s" by (auto simp: suffix_def)
    with assms wsChars_last[OF that] show False by simp
  qed
  then have "find (\<lambda>w. suffix w s) wsChars = None"
    by (simp add: find_None_iff)
  then show ?thesis by (subst trimEnd.simps) simp
qed

lemma showNat_ends: "isDigit (hd (showNat n))" "isDigit (last (showNat n))"
  using showNat_digits[of n] showNat_nonempty[of n]
  by (cases "showNat n"; simp add: list_all_iff)+

lemma showInt_nonempty: "showInt i \<noteq> []"
  by (simp add: showInt_def showNat_nonempty)

lemma trim_showInt: "trim (showInt i) = showInt i"
proof -
  have "plainEnd (hd (showInt i))"
    using showNat_ends(1) by (simp add: showInt_def plainEnd_def)
  moreover have "plainEnd (last (showInt i))"
    using showNat_ends(2) by (simp add: showInt_def plainEnd_def showNat_nonempty)
  ultimately show ?thesis
    by (simp add: trim_def trimStart_plain trimEnd_plain showInt_nonempty)
qed

lemma StrDecimalLiteral_digits:
  assumes "ds \<noteq> []" "list_all isDigit ds"
  shows "StrDecimalLiteral ds = Some (Num (int (digitsVal ds)))"
    and "StrDecimalLiteral (CHR ''-'' # ds) = Some (Num (- int (digitsVal ds)))"
proof -
  have tw: "takeWhile isDigit ds = ds" "dropWhile isDigit ds = []"
    using assms(2) by (simp_all add: list_all_iff)
  have hd: "isDigit (hd ds)" using assms by (cases ds) simp_all
  then have nosign: "hd ds \<noteq> CHR ''-''" "hd ds \<noteq> CHR ''+''"
    by (auto simp: isDigit_def)
  have noinf: "ds \<noteq> ''Infinity''"
    using assms(2) by (auto simp: isDigit_def)
  have sg: "signed ds = (False, ds)"
    using assms(1) nosign by (cases ds) (simp_all add: signed_def)
  show "StrDecimalLiteral ds = Some (Num (int (digitsVal ds)))"
    using assms(1) noinf
    by (simp add: StrDecimalLiteral_def sg tw exponentPart_def decimalValue_def)
  show "StrDecimalLiteral (CHR ''-'' # ds) = Some (Num (- int (digitsVal ds)))"
    using assms(1) noinf
    by (simp add: StrDecimalLiteral_def signed_def tw exponentPart_def decimalValue_def)
qed

lemma StringToNumber_showInt: "StringToNumber (showInt i) = Num i"
proof (cases "i < 0")
  case True
  then show ?thesis
    using StrDecimalLiteral_digits(2)[OF showNat_nonempty showNat_digits, of "nat (- i)"]
    by (simp add: StringToNumber_def trim_showInt showInt_nonempty) (simp add: showInt_def digitsVal_showNat)
next
  case False
  then show ?thesis
    using StrDecimalLiteral_digits(1)[OF showNat_nonempty showNat_digits, of "nat i"]
    by (simp add: StringToNumber_def trim_showInt showInt_nonempty) (simp add: showInt_def digitsVal_showNat)
qed

lemma showInt_chars: "c \<in> set (showInt i) \<Longrightarrow> plainEnd c"
  using showNat_digits[of "nat i"] showNat_digits[of "nat (- i)"]
  by (auto simp: showInt_def plainEnd_def list_all_iff split: if_splits)

lemma showInt_no_specials:
  "CHR ''&'' \<notin> set (showInt i)" "CHR ''='' \<notin> set (showInt i)" "CHR ''%'' \<notin> set (showInt i)"
  using showInt_chars[of "CHR ''&''" i] showInt_chars[of "CHR ''=''" i]
    showInt_chars[of "CHR ''%''" i]
  by (auto simp: plainEnd_def isDigit_def)

lemma decode_showInt: "decodeURIComponent (Some (showInt i)) = Some (showInt i)"
  by (simp add: decodeURIComponent_def decodeFrom_plain showInt_no_specials)

section \<open>Facts about parseHash and updateHash\<close>

lemma split_book: "splitOn CHR ''='' (''book='' @ showInt b) = [''book'', showInt b]"
  using splitOn_append[of "CHR ''=''" "''book''" "showInt b"]
  by (simp add: splitOn_notin showInt_no_specials)

lemma split_chapter: "splitOn CHR ''='' (''chapter='' @ showInt n) = [''chapter'', showInt n]"
  using splitOn_append[of "CHR ''=''" "''chapter''" "showInt n"]
  by (simp add: splitOn_notin showInt_no_specials)

lemma parseHash_book:
  "parseHash (''#book='' @ showInt b) = Inr [''book'' \<mapsto> showInt b]"
proof -
  have "splitOn CHR ''&'' (''book='' @ showInt b) = [''book='' @ showInt b]"
    by (rule splitOn_notin) (simp add: showInt_no_specials)
  then show ?thesis
    using split_book[of b]
    by (simp add: parseHash_def stripHash_def decode_showInt setProp_def)
qed

lemma parseHash_book_chapter:
  "parseHash (''#book='' @ showInt b @ ''&chapter='' @ showInt n)
     = Inr [''book'' \<mapsto> showInt b, ''chapter'' \<mapsto> showInt n]"
proof -
  have "splitOn CHR ''&'' ((''book='' @ showInt b) @ CHR ''&'' # (''chapter='' @ showInt n))
          = (''book='' @ showInt b) # splitOn CHR ''&'' (''chapter='' @ showInt n)"
    by (rule splitOn_append) (simp add: showInt_no_specials)
  moreover have "splitOn CHR ''&'' (''chapter='' @ showInt n) = [''chapter='' @ showInt n]"
    by (rule splitOn_notin) (simp add: showInt_no_specials)
  ultimately have "splitOn CHR ''&'' (''book='' @ showInt b @ ''&chapter='' @ showInt n)
          = [''book='' @ showInt b, ''chapter='' @ showInt n]"
    by simp
  then show ?thesis
    using split_book[of b] split_chapter[of n]
    by (simp add: parseHash_def stripHash_def decode_showInt setProp_def)
qed

lemma numberOf_showInt: "numberOf (Some (showInt i)) = Some (Num i)"
  by (simp add: numberOf_def showInt_nonempty StringToNumber_showInt)

lemma hashUrl_cases:
  "hashUrl book chap =
     (if truthy book \<and> truthy chap
        then ''#book='' @ showParam book @ ''&chapter='' @ showParam chap
      else if truthy book then ''#book='' @ showParam book
      else if truthy chap then ''#chapter='' @ showParam chap
      else '' '')"
  by (simp add: hashUrl_def hashParts_def)

lemma storePair_keyValue:
  "storePair p r =
     (if fst (keyValue p) = [] then Inr r
      else (case decodeURIComponent (snd (keyValue p)) of
              None \<Rightarrow> Inl URIError
            | Some d \<Rightarrow> Inr (setProp r (fst (keyValue p)) d)))"
  by (cases p) (auto simp: keyValue_def split: list.splits option.splits)

lemma forEachPair_stored:
  assumes "list_all (\<lambda>p. fst p = [] \<or> decodeURIComponent (snd p) \<noteq> None) (map keyValue ps)"
  shows "forEachPair ps r = Inr (stored ps r)"
  using assms
proof (induction ps arbitrary: r)
  case Nil
  then show ?case by (simp add: stored_def)
next
  case (Cons p ps)
  obtain k v where kv: "keyValue p = (k, v)" by (cases "keyValue p")
  from Cons.prems
  have rest: "list_all (\<lambda>p. fst p = [] \<or> decodeURIComponent (snd p) \<noteq> None) (map keyValue ps)"
    and here: "k = [] \<or> decodeURIComponent v \<noteq> None"
    using kv by simp_all
  show ?case
  proof (cases "k = []")
    case True
    then have "forEachPair (p # ps) r = forEachPair ps r"
      using kv by (simp add: storePair_keyValue)
    also have "\<dots> = Inr (stored ps r)" using Cons.IH[OF rest] .
    also have "stored ps r = stored (p # ps) r"
      using kv True
      by (auto simp: stored_def map_of_append fun_eq_iff map_add_def split: option.splits)
    finally show ?thesis .
  next
    case False
    with here obtain d where d: "decodeURIComponent v = Some d" by auto
    have "forEachPair (p # ps) r = forEachPair ps (setProp r k d)"
      using kv False d by (simp add: storePair_keyValue)
    also have "\<dots> = Inr (stored ps (setProp r k d))" using Cons.IH[OF rest] .
    also have "stored ps (setProp r k d) = stored (p # ps) r"
      using kv False d
      by (auto simp: stored_def setProp_def map_of_append fun_eq_iff map_add_def
          split: option.splits)
    finally show ?thesis .
  qed
qed

lemma stored_empty:
  "stored (map (splitOn CHR ''='') (splitOn CHR ''&'' (stripHash h))) Map.empty = storedParams h"
  by (auto simp: stored_def storedParams_def fragmentPairs_def fun_eq_iff split: option.splits)

lemma storedParams_blank: "stripHash h = [] \<Longrightarrow> storedParams h = Map.empty"
  by (auto simp: storedParams_def fragmentPairs_def keyValue_def fun_eq_iff)

lemma parseHash_stored: "decodable h \<Longrightarrow> parseHash h = Inr (storedParams h)"
  using forEachPair_stored[of "map (splitOn CHR ''='') (splitOn CHR ''&'' (stripHash h))" Map.empty]
  by (simp add: parseHash_def decodable_def fragmentPairs_def stored_empty storedParams_blank
      Let_def)

lemma storedParams_unknown:
  assumes "noKnownKey h"
  shows "storedParams h ''book'' = None" "storedParams h ''chapter'' = None"
proof -
  have "''book'' \<notin> fst ` set (rev (fragmentPairs h))"
    and "''chapter'' \<notin> fst ` set (rev (fragmentPairs h))"
    using assms by (auto simp: noKnownKey_def list_all_iff)
  then have "map_of (rev (fragmentPairs h)) ''book'' = None"
    and "map_of (rev (fragmentPairs h)) ''chapter'' = None"
    by (simp_all only: map_of_eq_None_iff not_False_eq_True)
  then show "storedParams h ''book'' = None" "storedParams h ''chapter'' = None"
    by (simp_all add: storedParams_def)
qed

text \<open>The keys of the URL that \<^verbatim>\<open>updateHash\<close> writes.\<close>

lemma hasKey_first: "hasKey k (CHR ''#'' # k @ ''='' @ post)"
  unfolding hasKey_def by (rule exI[of _ "[]"]) simp

lemma hasKey_second: "hasKey k (CHR ''#'' # (first @ ''&'') @ k @ ''='' @ post)"
  unfolding hasKey_def by (rule exI[of _ "first @ ''&''"]) auto

lemma not_hasKey:
  assumes "CHR ''&'' \<notin> set t" and "\<not> prefix (k @ ''='') t"
  shows "\<not> hasKey k (CHR ''#'' # t)"
proof
  assume "hasKey k (CHR ''#'' # t)"
  then obtain pre post where eq: "t = pre @ k @ ''='' @ post"
    and at: "pre = [] \<or> last pre = CHR ''&''"
    by (auto simp: hasKey_def)
  show False
  proof (cases "pre = []")
    case True
    with eq have "prefix (k @ ''='') t" by (simp add: prefix_def)
    with assms(2) show False by simp
  next
    case False
    with at have "CHR ''&'' \<in> set pre" by (metis last_in_set)
    with eq assms(1) show False by simp
  qed
qed

lemma not_hasKey_space: "\<not> hasKey k '' ''"
  by (simp add: hasKey_def)

lemma hasKey_hashUrl:
  "hasKey ''book'' (hashUrl book chap) = truthy book"
  "hasKey ''chapter'' (hashUrl book chap) = truthy chap"
proof -
  have b: "hasKey ''book'' (''#book='' @ r)" for r
    using hasKey_first[of "''book''" r] by simp
  have c: "hasKey ''chapter'' (''#chapter='' @ r)" for r
    using hasKey_first[of "''chapter''" r] by simp
  have bc: "hasKey ''chapter'' (''#book='' @ x @ ''&chapter='' @ r)" for x r
    using hasKey_second[of "''chapter''" "''book='' @ x" r] by simp
  have nb: "\<not> hasKey ''book'' (''#chapter='' @ showInt i)" for i
    using not_hasKey[of "''chapter='' @ showInt i" "''book''"]
    by (simp add: showInt_no_specials)
  have nc: "\<not> hasKey ''chapter'' (''#book='' @ showInt i)" for i
    using not_hasKey[of "''book='' @ showInt i" "''chapter''"]
    by (simp add: showInt_no_specials)
  show "hasKey ''book'' (hashUrl book chap) = truthy book"
    using b nb not_hasKey_space
    by (auto simp: hashUrl_cases truthy_def showParam_def split: option.splits)
  show "hasKey ''chapter'' (hashUrl book chap) = truthy chap"
    using c bc nc not_hasKey_space
    by (auto simp: hashUrl_cases truthy_def showParam_def split: option.splits)
qed

section \<open>Facts about openBook\<close>

lemma ifTruthy_Book: "ifTruthy (Some (Book book)) = Some (Book book)"
  by (simp add: ifTruthy_def)

lemma ifTruthy_None: "ifTruthy None = None"
  by (simp add: ifTruthy_def)

lemma ifTruthy_cases:
  "ifTruthy e = None \<or> ifTruthy e = e"
  by (simp add: ifTruthy_def split: option.splits cached.splits)

lemma openBook_hit:
  assumes "ifTruthy (bookCache st (Some (Number bookId))) = Some entry"
  shows "openBook net bookId opts st =
     openBook_try (openBook_show entry opts
       (st\<lparr>currentBookId := Some (Number bookId), titleText := TLoading, backHidden := False\<rparr>))"
  using assms by (simp add: openBook_def openBook_begin_def)

lemma openBook_miss:
  assumes "ifTruthy (bookCache st (Some (Number bookId))) = None"
    and "find (\<lambda>b. Num (s_id b) = Number bookId) (booksIndex st) = Some meta"
  shows "openBook net bookId opts st =
     openBook_resume \<lparr>w_options = opts, w_file = s_file meta\<rparr> (net (s_file meta))
       (st\<lparr>currentBookId := Some (Number bookId), titleText := TLoading, backHidden := False,
           fetches := fetches st @ [s_file meta]\<rparr>)"
  using assms by (simp add: openBook_def openBook_begin_def)

lemma openBook_nometa:
  assumes "ifTruthy (bookCache st (Some (Number bookId))) = None"
    and "find (\<lambda>b. Num (s_id b) = Number bookId) (booksIndex st) = None"
  shows "openBook net bookId opts st =
     openBook_catch ''Book meta not found''
       (st\<lparr>currentBookId := Some (Number bookId), titleText := TLoading, backHidden := False\<rparr>)"
  using assms by (simp add: openBook_def openBook_begin_def)

lemma openBook_catch_effect:
  "alerts (openBook_catch msg st) = alerts st @ [''Failed to open book: '' @ msg]"
  "mainClass (openBook_catch msg st) = ''page books-page''"
  "currentBookId (openBook_catch msg st) = None"
  "currentChapter (openBook_catch msg st) = None"
  "bookCache (openBook_catch msg st) = bookCache st"
  "fetches (openBook_catch msg st) = fetches st"
  "locationHash (openBook_catch msg st) = locationHash st"
  by (simp_all add: openBook_catch_def showBooks_def)

text \<open>The first chapter is shown when the book is in the cache under its own id.\<close>

lemma openBook_show_first:
  assumes "bookCache st (Some (Num (b_id book))) = Some (Book book)"
    and "chapters book = c # cs"
  shows "openBook_try (openBook_show (Book book) noOptions st) =
     st\<lparr>mainClass := ''page verses-page'', titleText := TChapter (b_name book) (Num (number c)),
        mainContent := VersesOf c, currentChapter := Some (Num (number c)),
        locationHash := hashAfter (hashUrl (Some (b_id book)) (Some (number c))),
        replaced := replaced st @ [hashUrl (Some (b_id book)) (Some (number c))]\<rparr>"
  using assms
  by (simp add: openBook_try_def openBook_show_def noOptions_def renderChaptersView_def
      openChapter_def updateHash_def ifTruthy_def)

lemma openBook_resume_failure:
  assumes "fetchJson (w_file w) resp = Inl msg"
  shows "openBook_resume w resp st = openBook_catch msg st"
  using assms by (simp add: openBook_resume_def)

text \<open>A value without chapters that arrives is stored, and then drawing it throws.\<close>

lemma openBook_resume_shape:
  assumes "fetchJson (w_file w) resp = Inr (NotBook t d f s)"
  shows "openBook_resume w resp st =
     openBook_catch d (st\<lparr>bookCache := (bookCache st)(currentBookId st \<mapsto> NotBook t d f s)\<rparr>)"
  using assms by (simp add: openBook_resume_def openBook_show_def openBook_try_def)

text \<open>The rest of the \<^verbatim>\<open>try\<close> block never writes the cache, and it either adds no alert or
  ends in the \<^verbatim>\<open>catch\<close> block.\<close>

lemma openChapter_cases:
  "(\<exists>st'. openChapter x n st = Returned st' \<and> alerts st' = alerts st
           \<and> bookCache st' = bookCache st)
   \<or> (\<exists>msg. openChapter x n st = Threw msg st)"
  by (simp add: openChapter_def updateHash_def Let_def split: option.splits cached.splits)

lemma openBook_show_cases:
  "(\<exists>st'. openBook_show entry opts st = Returned st' \<and> alerts st' = alerts st
           \<and> bookCache st' = bookCache st)
   \<or> (\<exists>msg st'. openBook_show entry opts st = Threw msg st' \<and> alerts st' = alerts st
           \<and> bookCache st' = bookCache st)"
proof (cases entry)
  case (NotBook t d f s)
  then show ?thesis by (simp add: openBook_show_def)
next
  case (Book book)
  have r: "alerts (renderChaptersView book st) = alerts st"
    "bookCache (renderChaptersView book st) = bookCache st"
    by (simp_all add: renderChaptersView_def)
  show ?thesis
    using openChapter_cases[of "b_id book" _ "renderChaptersView book st"] r Book
    by (auto simp: openBook_show_def Let_def split: option.splits)
qed

lemma openBook_try_cases:
  "bookCache (openBook_try (openBook_show entry opts st)) = bookCache st
   \<and> (alerts (openBook_try (openBook_show entry opts st)) = alerts st
      \<or> ((\<exists>msg. alerts (openBook_try (openBook_show entry opts st))
                    = alerts st @ [''Failed to open book: '' @ msg])
         \<and> inState (openBook_try (openBook_show entry opts st)) Library))"
  using openBook_show_cases[of entry opts st]
  by (auto simp: openBook_try_def openBook_catch_effect)

lemma openBook_cases:
  "alerts (openBook net bookId opts st) = alerts st
   \<or> ((\<exists>msg. alerts (openBook net bookId opts st) = alerts st @ [''Failed to open book: '' @ msg])
      \<and> inState (openBook net bookId opts st) Library
      \<and> bookCache (openBook net bookId opts st) =
          (case arrived net st bookId of
             None \<Rightarrow> bookCache st
           | Some entry \<Rightarrow> (bookCache st)(Some (Number bookId) \<mapsto> entry)))"
proof (cases "ifTruthy (bookCache st (Some (Number bookId)))")
  case (Some entry)
  then have a: "arrived net st bookId = None" by (simp add: arrived_def)
  show ?thesis
    unfolding openBook_hit[OF Some] a
    using openBook_try_cases[of entry opts
        "st\<lparr>currentBookId := Some (Number bookId), titleText := TLoading, backHidden := False\<rparr>"]
    by auto
next
  case None
  show ?thesis
  proof (cases "find (\<lambda>b. Num (s_id b) = Number bookId) (booksIndex st)")
    case nometa: None
    have a: "arrived net st bookId = None" using None nometa by (simp add: arrived_def)
    show ?thesis
      unfolding openBook_nometa[OF None nometa] a by (simp add: openBook_catch_effect)
  next
    case (Some meta)
    show ?thesis
    proof (cases "fetchJson (s_file meta) (net (s_file meta))")
      case (Inl msg)
      have a: "arrived net st bookId = None" using None Some Inl by (simp add: arrived_def)
      show ?thesis
        unfolding openBook_miss[OF None Some] a
        using Inl by (simp add: openBook_resume_failure openBook_catch_effect)
    next
      case (Inr entry)
      have a: "arrived net st bookId = Some entry" using None Some Inr by (simp add: arrived_def)
      show ?thesis
        unfolding openBook_miss[OF None Some] a
        using Inr openBook_try_cases[of entry opts
          "st\<lparr>currentBookId := Some (Number bookId), titleText := TLoading, backHidden := False,
              fetches := fetches st @ [s_file meta],
              bookCache := (bookCache st)(Some (Number bookId) \<mapsto> entry)\<rparr>"]
        by (auto simp: openBook_resume_def)
    qed
  qed
qed

lemma openBook_failsWith:
  assumes "failsWith net st bookId = Some msg"
  shows "alerts (openBook net bookId opts st) = alerts st @ [''Failed to open book: '' @ msg]
     \<and> inState (openBook net bookId opts st) Library
     \<and> bookCache (openBook net bookId opts st) = bookCache st"
proof (cases "ifTruthy (bookCache st (Some (Number bookId)))")
  case (Some entry)
  with assms obtain t f s where e: "entry = NotBook t msg f s"
    by (cases entry) (simp_all add: failsWith_def)
  show ?thesis
    unfolding openBook_hit[OF Some] e
    by (simp add: openBook_show_def openBook_try_def openBook_catch_effect)
next
  case miss: None
  show ?thesis
  proof (cases "find (\<lambda>b. Num (s_id b) = Number bookId) (booksIndex st)")
    case None
    with assms miss have "msg = ''Book meta not found''"
      by (simp add: failsWith_def)
    then show ?thesis
      unfolding openBook_nometa[OF miss None] by (simp add: openBook_catch_effect)
  next
    case (Some meta)
    with assms miss have "fetchJson (s_file meta) (net (s_file meta)) = Inl msg"
      by (simp add: failsWith_def split: sum.splits)
    then show ?thesis
      unfolding openBook_miss[OF miss Some]
      by (simp add: openBook_resume_failure openBook_catch_effect)
  qed
qed

lemma openBook_failsOnShape:
  assumes "failsOnShape net st bookId = Some entry"
  shows "alerts (openBook net bookId opts st)
       = alerts st @ [''Failed to open book: '' @ drawError entry]
     \<and> inState (openBook net bookId opts st) Library
     \<and> bookCache (openBook net bookId opts st) = (bookCache st)(Some (Number bookId) \<mapsto> entry)"
proof -
  from assms obtain t d f s where e: "entry = NotBook t d f s"
    and a: "arrived net st bookId = Some (NotBook t d f s)"
    by (auto simp: failsOnShape_def split: option.splits cached.splits)
  from a have miss: "ifTruthy (bookCache st (Some (Number bookId))) = None"
    by (simp add: arrived_def split: option.splits)
  from a miss obtain meta where
    meta: "find (\<lambda>b. Num (s_id b) = Number bookId) (booksIndex st) = Some meta"
    by (auto simp: arrived_def split: option.splits)
  from a miss meta have f: "fetchJson (s_file meta) (net (s_file meta)) = Inr (NotBook t d f s)"
    by (simp add: arrived_def split: sum.splits)
  show ?thesis
    unfolding openBook_miss[OF miss meta] e
    using f by (simp add: openBook_resume_shape openBook_catch_effect)
qed

section \<open>Facts about the search\<close>

lemma includesStr_iff: "includesStr s q \<longleftrightarrow> occursIn q s"
  unfolding occursIn_def
proof (induction s)
  case Nil
  then show ?case by auto
next
  case (Cons c cs)
  show ?case
  proof
    assume "includesStr (c # cs) q"
    then consider "prefix q (c # cs)" | "includesStr cs q" by auto
    then show "\<exists>pre post. c # cs = pre @ q @ post"
    proof cases
      case 1
      then obtain post where "c # cs = q @ post" by (auto simp: prefix_def)
      then have "c # cs = [] @ q @ post" by simp
      then show ?thesis by blast
    next
      case 2
      with Cons.IH obtain pre post where "cs = pre @ q @ post" by auto
      then have "c # cs = (c # pre) @ q @ post" by simp
      then show ?thesis by blast
    qed
  next
    assume "\<exists>pre post. c # cs = pre @ q @ post"
    then obtain pre post where eq: "c # cs = pre @ q @ post" by auto
    show "includesStr (c # cs) q"
    proof (cases pre)
      case Nil
      with eq have "prefix q (c # cs)" by (simp add: prefix_def)
      then show ?thesis by simp
    next
      case (Cons a pre')
      with eq have "cs = pre' @ q @ post" by simp
      with Cons.IH have "includesStr cs q" by blast
      then show ?thesis by simp
    qed
  qed
qed

lemma lowerChar_of:
  "(of_char (lowerChar c) :: nat) = (if capital c then of_char c + 32 else of_char c)"
  by (simp add: lowerChar_def capital_def Let_def)

text \<open>Two characters are the same letter exactly when their lower cases are equal.\<close>

lemma sameLetter_lower: "sameLetter a b \<longleftrightarrow> lowerChar a = lowerChar b"
proof -
  have "lowerChar a = lowerChar b \<longleftrightarrow> (of_char (lowerChar a) :: nat) = of_char (lowerChar b)"
    by simp
  also have "\<dots> \<longleftrightarrow> sameLetter a b"
    unfolding lowerChar_of sameLetter_def capital_def by auto
  finally show ?thesis by simp
qed

lemma sameLetters_lower: "list_all2 sameLetter xs ys \<longleftrightarrow> asciiLowerCase xs = asciiLowerCase ys"
  unfolding asciiLowerCase_def
proof (induction xs arbitrary: ys)
  case Nil
  then show ?case by auto
next
  case (Cons x xs)
  then show ?case by (cases ys) (auto simp: sameLetter_lower)
qed

lemma includes_lower:
  "occursIn (asciiLowerCase q) (asciiLowerCase t) \<longleftrightarrow> containsCI t q"
proof
  assume "occursIn (asciiLowerCase q) (asciiLowerCase t)"
  then obtain pre post where "map lowerChar t = pre @ map lowerChar q @ post"
    by (auto simp: occursIn_def asciiLowerCase_def)
  then obtain a r where t1: "t = a @ r" and "map lowerChar q @ post = map lowerChar r"
    by (auto simp: map_eq_append_conv)
  then obtain m b where "r = m @ b" and "map lowerChar q = map lowerChar m"
    by (auto simp: append_eq_map_conv)
  with t1 show "containsCI t q"
    by (auto simp: containsCI_def sameLetters_lower asciiLowerCase_def)
next
  assume "containsCI t q"
  then obtain pre mid post where "t = pre @ mid @ post" "asciiLowerCase mid = asciiLowerCase q"
    by (auto simp: containsCI_def sameLetters_lower)
  then have "asciiLowerCase t = asciiLowerCase pre @ asciiLowerCase q @ asciiLowerCase post"
    by (simp add: asciiLowerCase_def)
  then show "occursIn (asciiLowerCase q) (asciiLowerCase t)"
    by (auto simp: occursIn_def)
qed

lemma wsChars_length: "w \<in> set wsChars \<Longrightarrow> length w = wsLength (hd w)"
  by (auto simp: wsChars_def wsLength_def)

lemma wsChars_prefix_free:
  assumes "w \<in> set wsChars" "w' \<in> set wsChars" "prefix w' (w @ r)"
  shows "w' = w"
proof -
  have ne: "w \<noteq> []" "w' \<noteq> []" using assms(1,2) by (simp_all add: wsChars_nonempty)
  from assms(3) obtain z where z: "w @ r = w' @ z" by (auto simp: prefix_def)
  with ne have "hd w = hd w'" by (cases w; cases w') auto
  then have "length w = length w'"
    using assms(1,2) by (simp add: wsChars_length)
  with z show ?thesis by simp
qed

lemma trimStart_blank: "set ws \<subseteq> set wsChars \<Longrightarrow> trimStart (concat ws) = []"
proof (induction ws)
  case Nil
  have "find (\<lambda>w. prefix w []) wsChars = None"
    by (auto simp: find_None_iff dest: wsChars_nonempty)
  then show ?case by (subst trimStart.simps) simp
next
  case (Cons w ws)
  then have w: "w \<in> set wsChars" and rest: "set ws \<subseteq> set wsChars" by simp_all
  have "find (\<lambda>v. prefix v (w @ concat ws)) wsChars \<noteq> None"
    using w by (auto simp: find_None_iff)
  then obtain v where v: "find (\<lambda>v. prefix v (w @ concat ws)) wsChars = Some v" by auto
  then have "v \<in> set wsChars" "prefix v (w @ concat ws)"
    by (auto simp: find_Some_iff)
  then have "v = w" using w by (rule wsChars_prefix_free[rotated])
  with v have "trimStart (concat (w # ws)) = trimStart (concat ws)"
    by (subst trimStart.simps) simp
  with Cons.IH[OF rest] show ?case by simp
qed

lemma trimEnd_Nil: "trimEnd [] = []"
proof -
  have "find (\<lambda>w. suffix w []) wsChars = None"
    by (auto simp: find_None_iff dest: wsChars_nonempty)
  then show ?thesis by (subst trimEnd.simps) simp
qed

lemma trim_blank: "set ws \<subseteq> set wsChars \<Longrightarrow> trim (concat ws) = []"
  by (simp add: trim_def trimStart_blank trimEnd_Nil)

text \<open>With books only in the cache, the callback of the filter does not throw and says
  whether the summary matches.\<close>

lemma matchBook_spec:
  assumes "case cache (Some (Num (s_id b))) of Some (NotBook t d f s) \<Rightarrow> False | _ \<Rightarrow> True"
  shows "matchBook lc cache (lc q) b = Inr (matches lc cache q b)"
  using assms
  by (auto simp: matchBook_def matches_def includesStr_iff ifTruthy_def list_ex_iff
      split: option.splits cached.splits)

lemma filterBooks_spec:
  "booksOnly index cache \<Longrightarrow>
     filterBooks lc index cache (lc q) = Inr (filter (matches lc cache q) index)"
proof (induction index)
  case Nil
  then show ?case by simp
next
  case (Cons b bs)
  then have "booksOnly bs cache"
    and "case cache (Some (Num (s_id b))) of Some (NotBook t d f s) \<Rightarrow> False | _ \<Rightarrow> True"
    by (simp_all add: booksOnly_def)
  with Cons.IH show ?case by (simp add: matchBook_spec)
qed

text \<open>The filter keeps the order of the list.\<close>

lemma filterBooks_subseq: "filterBooks lc index cache q = Inr kept \<Longrightarrow> subseq kept index"
proof (induction index arbitrary: kept)
  case Nil
  then show ?case by simp
next
  case (Cons b bs)
  then show ?case by (auto split: sum.splits if_splits)
qed

text \<open>The search writes nothing but the grid and the log of uncaught exceptions.\<close>

lemma searchInput_with_others:
  "fetches (searchInput_with lc query st) = fetches st"
  "bookCache (searchInput_with lc query st) = bookCache st"
  "booksIndex (searchInput_with lc query st) = booksIndex st"
  by (simp_all add: searchInput_with_def renderBooksGrid_def Let_def split: sum.splits)

section \<open>The claims\<close>

subsection \<open>C10: updateHash writes a key exactly for a truthy value\<close>

text \<open>
  Claim C10. \<^verbatim>\<open>updateHash\<close> hands one URL to \<^verbatim>\<open>history.replaceState\<close>. That URL has the
  key \<open>book\<close> exactly when a book id is given and is not 0, and the key \<open>chapter\<close> exactly
  when a chapter number is given and is not 0; it is a single space, not an empty hash,
  exactly when it has neither key. So a book id 0 or a chapter number 0 is left out as an
  absent value is, and the state whose only id is the book id 0 writes what the library
  writes. For safe integers other than 0 the URL is \<^verbatim>\<open>#book=<b>&chapter=<c>\<close>, book before
  chapter, or the one key that is given.
\<close>

theorem updateHash_writes_truthy_keys:
  "replaced (updateHash book chap st) = replaced st @ [hashUrl book chap]
   \<and> locationHash (updateHash book chap st) = hashAfter (hashUrl book chap)
   \<and> hasKey ''book'' (hashUrl book chap) = (book \<noteq> None \<and> book \<noteq> Some 0)
   \<and> hasKey ''chapter'' (hashUrl book chap) = (chap \<noteq> None \<and> chap \<noteq> Some 0)
   \<and> (hashUrl book chap = '' '')
       = ((book = None \<or> book = Some 0) \<and> (chap = None \<or> chap = Some 0))
   \<and> hashUrl (Some 0) chap = hashUrl None chap
   \<and> hashUrl book (Some 0) = hashUrl book None
   \<and> encode (ChapterList 0) = encode Library
   \<and> (safeInteger b \<and> safeInteger c \<and> b \<noteq> 0 \<and> c \<noteq> 0 \<longrightarrow>
         hashUrl (Some b) (Some c) = ''#book='' @ showInt b @ ''&chapter='' @ showInt c
       \<and> hashUrl (Some b) None = ''#book='' @ showInt b
       \<and> hashUrl None (Some c) = ''#chapter='' @ showInt c)"
proof -
  have t: "truthy v = (v \<noteq> None \<and> v \<noteq> Some 0)" for v
    by (cases v) (simp_all add: truthy_def)
  have space: "(hashUrl book chap = '' '')
       = ((book = None \<or> book = Some 0) \<and> (chap = None \<or> chap = Some 0))"
    by (cases book; cases chap) (simp_all add: hashUrl_cases truthy_def showParam_def)
  have zero: "hashUrl (Some 0) chap = hashUrl None chap" "hashUrl book (Some 0) = hashUrl book None"
    by (simp_all add: hashUrl_cases truthy_def)
  have lib: "encode (ChapterList 0) = encode Library"
    by (simp add: encode_def hashUrl_cases truthy_def)
  have urls: "b \<noteq> 0 \<and> c \<noteq> 0 \<longrightarrow>
         hashUrl (Some b) (Some c) = ''#book='' @ showInt b @ ''&chapter='' @ showInt c
       \<and> hashUrl (Some b) None = ''#book='' @ showInt b
       \<and> hashUrl None (Some c) = ''#chapter='' @ showInt c"
    by (simp add: hashUrl_cases truthy_def showParam_def)
  show ?thesis
    using space zero lib urls
    by (simp add: updateHash_def hasKey_hashUrl t)
qed

text \<open>Book 12 and chapter 3; book 12 alone; chapter 3 alone; and two zeros.\<close>

theorem updateHash_writes_truthy_keys_witness:
  "safeInteger 12 \<and> safeInteger 3
   \<and> hashUrl (Some 12) (Some 3) = ''#book=12&chapter=3''
   \<and> hasKey ''book'' (hashUrl (Some 12) (Some 3))
   \<and> hasKey ''chapter'' (hashUrl (Some 12) (Some 3))
   \<and> hashUrl (Some 12) None = ''#book=12''
   \<and> hashUrl None (Some 3) = ''#chapter=3''
   \<and> hashUrl (Some 0) (Some 0) = '' ''"
proof -
  have s: "safeInteger 12" "safeInteger 3" by (simp_all add: safeInteger_def)
  have d: "showInt 12 = ''12''" "showInt 3 = ''3''" by code_simp+
  show ?thesis
    using updateHash_writes_truthy_keys[of "Some 12" "Some 3" startState 12 3]
      updateHash_writes_truthy_keys[of "Some 0" "Some 0" startState 12 3] s d
    by simp
qed

subsection \<open>C1: the round trip of the codec\<close>

text \<open>
  Claim C1, as amended. For the library, and for every state whose book id is not 0 and
  whose chapter number, if it has one, is not 0: decoding the fragment that encoding the
  state produces gives the ids of the state again, as the integers they were.
\<close>

theorem codec_roundtrip:
  assumes "nonzeroIds s"
  shows "decode (encode s) = Inr (map_option Num (fst (idsOf s)), map_option Num (snd (idsOf s)))"
proof (cases s)
  case Library
  then show ?thesis
    by (simp add: encode_def hashUrl_cases truthy_def hashAfter_def decode_def parseHash_def
        stripHash_def numberOf_def)
next
  case (ChapterList b)
  with assms have "b \<noteq> 0" by simp
  then have "encode s = ''#book='' @ showInt b"
    using ChapterList by (simp add: encode_def hashUrl_cases truthy_def hashAfter_def showParam_def)
  then show ?thesis
    using ChapterList parseHash_book[of b]
    by (simp add: decode_def numberOf_showInt) (simp add: numberOf_def)
next
  case (VerseList b n)
  with assms have "b \<noteq> 0" "n \<noteq> 0" by simp_all
  then have "encode s = ''#book='' @ showInt b @ ''&chapter='' @ showInt n"
    using VerseList by (simp add: encode_def hashUrl_cases truthy_def hashAfter_def showParam_def)
  then show ?thesis
    using VerseList parseHash_book_chapter[of b n]
    by (simp add: decode_def numberOf_showInt)
qed

text \<open>The round trip at the state of the scenario, verse list of book 1, chapter 1.\<close>

theorem codec_roundtrip_witness:
  "nonzeroIds (VerseList 1 1)
   \<and> encode (VerseList 1 1) = ''#book=1&chapter=1''
   \<and> decode ''#book=1&chapter=1'' = Inr (Some (Num 1), Some (Num 1))"
proof -
  have e: "encode (VerseList 1 1) = ''#book=1&chapter=1''"
    by code_simp
  show ?thesis
    using codec_roundtrip[of "VerseList 1 1"] e by simp
qed

text \<open>
  Claim C1 as stated fails where an id is 0. A tap on the book with id 0 ends in the
  verse list of book 0, chapter 5; the fragment written there has no book key, and it
  decodes to a chapter without a book. A chapter number 0 is lost in the same way.
\<close>

theorem codec_roundtrip_counterexample:
  "inState prefaceState (VerseList 0 5)
   \<and> locationHash prefaceState = ''#chapter=5''
   \<and> encode (VerseList 0 5) = ''#chapter=5''
   \<and> decode (encode (VerseList 0 5)) = Inr (None, Some (Num 5))
   \<and> decode (encode (VerseList 0 5)) \<noteq> Inr (Some (Num 0), Some (Num 5))
   \<and> decode (encode (VerseList 1 0)) = Inr (Some (Num 1), None)"
  by code_simp

subsection \<open>C2: parseHash on fragments that are not deep links\<close>

text \<open>
  Claim C2, as amended. For every fragment in which the value of each pair with a key is
  a well-formed percent-encoding, \<^verbatim>\<open>parseHash\<close> returns. It splits on \<open>&\<close>, then on \<open>=\<close>.
  A malformed pair is kept, not dropped: the result holds, under every key but the empty
  one and \<^verbatim>\<open>__proto__\<close>, the decoded value of the last pair with that key, which is the
  text \<^verbatim>\<open>undefined\<close> for a pair without \<open>=\<close> and the text as it stands for an id that is
  no number. A fragment with no pair keyed \<^verbatim>\<open>book\<close> or \<^verbatim>\<open>chapter\<close> gives a result with
  neither key. The caller reads only those two keys, whatever else the result holds, and
  opens nothing when \<^verbatim>\<open>book\<close> is absent or empty.
\<close>

theorem parseHash_keeps_pairs:
  assumes "decodable h"
  shows "parseHash h = Inr (storedParams h)
     \<and> (noKnownKey h \<longrightarrow> storedParams h ''book'' = None \<and> storedParams h ''chapter'' = None)
     \<and> (\<forall>st. locationHash st = h \<longrightarrow>
           handleDeepLink st =
             (case storedParams h ''book'' of
                None \<Rightarrow> Inr (Done st)
              | Some b \<Rightarrow>
                  if b = [] then Inr (Done st)
                  else Inr (openBook_begin (VStr b)
                         \<lparr>chapterArg = storedParams h ''chapter'', showChaptersOnly = False\<rparr> st)))"
  using parseHash_stored[OF assms] storedParams_unknown[of h]
  by (simp add: handleDeepLink_def)

text \<open>A fragment with an unknown key and a pair without \<open>=\<close>: both are stored, neither
  is a book or a chapter, and the deep link leaves the library as it is.\<close>

theorem parseHash_keeps_pairs_witness:
  "decodable ''#foo=bar&ref''
   \<and> noKnownKey ''#foo=bar&ref''
   \<and> parseHash ''#foo=bar&ref'' = Inr (storedParams ''#foo=bar&ref'')
   \<and> storedParams ''#foo=bar&ref'' ''foo'' = Some ''bar''
   \<and> storedParams ''#foo=bar&ref'' ''ref'' = Some ''undefined''
   \<and> storedParams ''#foo=bar&ref'' ''book'' = None
   \<and> storedParams ''#foo=bar&ref'' ''chapter'' = None
   \<and> handleDeepLink (startState\<lparr>locationHash := ''#foo=bar&ref''\<rparr>)
       = Inr (Done (startState\<lparr>locationHash := ''#foo=bar&ref''\<rparr>))"
proof -
  have d: "decodable ''#foo=bar&ref''" by code_simp
  have n: "noKnownKey ''#foo=bar&ref''" by code_simp
  have p: "storedParams ''#foo=bar&ref'' ''foo'' = Some ''bar''"
    "storedParams ''#foo=bar&ref'' ''ref'' = Some ''undefined''"
    by code_simp+
  show ?thesis
    using parseHash_keeps_pairs[OF d] d n p by simp
qed

text \<open>
  Claim C2 as stated fails on \<^verbatim>\<open>#book=abc\<close>: the book id is no number, and the pair is
  in the result. The pair without \<open>=\<close> of \<^verbatim>\<open>#book\<close> is in the result too, and on
  \<^verbatim>\<open>#book=%\<close> the call raises.
\<close>

theorem parseHash_malformed_counterexample:
  "readKey (parseHash ''#book=abc'') ''book'' = Inr (Some ''abc'')
   \<and> Number (VStr ''abc'') = NaN
   \<and> readKey (parseHash ''#book'') ''book'' = Inr (Some ''undefined'')
   \<and> readKey (parseHash ''#book=%'') ''book'' = Inl URIError"
  by code_simp

subsection \<open>C3: a deep link to a chapter that the book does not have\<close>

text \<open>
  Claim C3 does not hold of the code. \<^verbatim>\<open>handleDeepLink\<close> is called at one place, in
  \<^verbatim>\<open>loadIndex\<close>, and is not awaited; \<^verbatim>\<open>loadInitial\<close> then calls \<^verbatim>\<open>showBooks\<close>, which
  resets the current book before the content of the linked book arrives. On the page
  loaded at \<^verbatim>\<open>#book=1&chapter=99\<close>, with Genesis as the one book: after \<^verbatim>\<open>loadInitial\<close>
  the page is the library and the request for \<^verbatim>\<open>g.json\<close> is pending. When the answer
  arrives the content is stored in the cache under \<^verbatim>\<open>null\<close>, the chapter list is drawn,
  and \<^verbatim>\<open>openChapter\<close> finds nothing under the id 1 and returns. The page ends on the
  chapter list with no current book and no current chapter, no notice, the back button
  hidden, and the fragment as it was. A link to chapter 1, which the book has, ends in
  the same way, while a tap on the book opens that chapter.
\<close>

theorem deepLink_races_with_showBooks:
  "locationHash linkedPage = ''#book=1&chapter=99''
   \<and> inState (fst (loadInitial (Json [genesisSummary]) linkedPage)) Library
   \<and> snd (loadInitial (Json [genesisSummary]) linkedPage)
       = Some \<lparr>w_options = \<lparr>chapterArg = Some ''99'', showChaptersOnly = False\<rparr>,
                w_file = ''g.json''\<rparr>
   \<and> mainClass (startUp (Json [genesisSummary]) genesisNet linkedPage) = ''page chapters-page''
   \<and> mainContent (startUp (Json [genesisSummary]) genesisNet linkedPage) = ChaptersOf genesis
   \<and> titleText (startUp (Json [genesisSummary]) genesisNet linkedPage) = TName ''Genesis''
   \<and> backHidden (startUp (Json [genesisSummary]) genesisNet linkedPage)
   \<and> currentBookId (startUp (Json [genesisSummary]) genesisNet linkedPage) = None
   \<and> currentChapter (startUp (Json [genesisSummary]) genesisNet linkedPage) = None
   \<and> bookCache (startUp (Json [genesisSummary]) genesisNet linkedPage) None = Some (Book genesis)
   \<and> bookCache (startUp (Json [genesisSummary]) genesisNet linkedPage) (Some (Num 1)) = None
   \<and> locationHash (startUp (Json [genesisSummary]) genesisNet linkedPage) = ''#book=1&chapter=99''
   \<and> replaced (startUp (Json [genesisSummary]) genesisNet linkedPage) = []
   \<and> alerts (startUp (Json [genesisSummary]) genesisNet linkedPage) = []
   \<and> mainContent (startUp (Json [genesisSummary]) genesisNet
         (linkedPage\<lparr>locationHash := ''#book=1&chapter=1''\<rparr>)) = ChaptersOf genesis
   \<and> currentChapter (startUp (Json [genesisSummary]) genesisNet
         (linkedPage\<lparr>locationHash := ''#book=1&chapter=1''\<rparr>)) = None
   \<and> inState (selectBook genesisNet 1 startState) (VerseList 1 1)"
  by code_simp

subsection \<open>C6: a tap on a book opens its first chapter\<close>

text \<open>
  Claim C6, as amended. For every book whose content loads successfully, carries the id
  it was asked for, and has at least one chapter: a tap on the book, which asks for no
  chapter and not for the chapter list only, opens the first chapter of the sequence
  (whatever its number) and ends in the verse list of the book and that chapter, showing
  its verses, with the fragment that \<^verbatim>\<open>updateHash\<close> writes for the two ids; the content is
  in the cache afterwards and nothing is alerted.
\<close>

theorem selectBook_opens_first_chapter:
  assumes "loads net st x book" and "b_id book = x" and "chapters book = c # cs"
  shows "inState (selectBook net x st) (VerseList x (number c))
     \<and> mainContent (selectBook net x st) = VersesOf c
     \<and> locationHash (selectBook net x st) = hashAfter (hashUrl (Some x) (Some (number c)))
     \<and> bookCache (selectBook net x st) (Some (Num x)) = Some (Book book)
     \<and> alerts (selectBook net x st) = alerts st"
proof (cases "ifTruthy (bookCache st (Some (Num x)))")
  case (Some entry)
  with assms(1) have hit: "ifTruthy (bookCache st (Some (Number (VNum (Num x))))) = Some (Book book)"
    by (simp add: loads_def)
  then have cached: "bookCache st (Some (Num x)) = Some (Book book)"
    using ifTruthy_cases[of "bookCache st (Some (Num x))"] by auto
  show ?thesis
    unfolding selectBook_def openBook_hit[OF hit]
    using assms(2,3) cached
    by (subst openBook_show_first[where c = c and cs = cs]; simp)+
next
  case None
  with assms(1) obtain meta where
    meta: "find (\<lambda>b. Num (s_id b) = Number (VNum (Num x))) (booksIndex st) = Some meta"
    and net: "net (s_file meta) = Json (Book book)"
    by (auto simp: loads_def split: option.splits)
  from None have miss: "ifTruthy (bookCache st (Some (Number (VNum (Num x))))) = None" by simp
  show ?thesis
    unfolding selectBook_def openBook_miss[OF miss meta]
    using assms(2,3) net
    by (simp add: openBook_resume_def)
      ((subst openBook_show_first[where c = c and cs = cs]; simp)+)
qed

text \<open>The scenario of the specification: one book with the id 1, one chapter numbered 1,
  one verse. A tap ends in the verse list of book 1, chapter 1, and the fragment is
  \<^verbatim>\<open>#book=1&chapter=1\<close>.\<close>

theorem selectBook_opens_first_chapter_witness:
  "loads genesisNet startState 1 genesis
   \<and> b_id genesis = 1
   \<and> chapters genesis = [\<lparr>number = 1, verses = [''In the beginning'']\<rparr>]
   \<and> inState (selectBook genesisNet 1 startState) (VerseList 1 1)
   \<and> mainContent (selectBook genesisNet 1 startState)
       = VersesOf \<lparr>number = 1, verses = [''In the beginning'']\<rparr>
   \<and> locationHash (selectBook genesisNet 1 startState) = ''#book=1&chapter=1''"
proof -
  have l: "loads genesisNet startState 1 genesis" by code_simp
  have o: "b_id genesis = 1" by code_simp
  have c: "chapters genesis = [\<lparr>number = 1, verses = [''In the beginning'']\<rparr>]" by code_simp
  have h: "hashAfter (hashUrl (Some 1) (Some 1)) = ''#book=1&chapter=1''" by code_simp
  show ?thesis
    using selectBook_opens_first_chapter[OF l o c] l o c h by simp
qed

text \<open>
  Claim C6 as stated fails for two books whose content loads. Genesis served without
  chapters: the tap asks for chapter 1, which is not there, and the page shows
  the notice. Genesis served as a book that carries the id 2: the content is cached under
  1, \<^verbatim>\<open>openChapter\<close> looks under 2, finds nothing and returns, and the page stays on the
  chapter list. No fragment is written in either case.
\<close>

theorem selectBook_counterexample:
  "loads emptyNet startState 1 emptyBook
   \<and> mainContent (selectBook emptyNet 1 startState) = ChapterNotFound
   \<and> currentChapter (selectBook emptyNet 1 startState) = Some (Num 1)
   \<and> locationHash (selectBook emptyNet 1 startState) = []
   \<and> loads misfiledNet startState 1 misfiled
   \<and> chapters misfiled = [\<lparr>number = 1, verses = [''These are the names'']\<rparr>]
   \<and> mainClass (selectBook misfiledNet 1 startState) = ''page chapters-page''
   \<and> currentBookId (selectBook misfiledNet 1 startState) = Some (Num 1)
   \<and> currentChapter (selectBook misfiledNet 1 startState) = None
   \<and> locationHash (selectBook misfiledNet 1 startState) = []"
  by code_simp

subsection \<open>C7: a book that cannot be opened\<close>

text \<open>
  Claim C7, as amended. Whenever opening a book fails, the error is shown to the user once
  (one alert is added) and the page is back in the library with no current book and no
  current chapter. Where nothing has arrived from the network (the index has no summary
  with the id, the request fails, the status is not ok, the body is no JSON, or the cache
  already holds a value without chapters) the cache is what it was; the same holds when
  the failing answer arrives in any later state. Where the body is JSON without chapters,
  the value is in the cache under the id when the failure is shown. Every call either
  adds no alert, or adds one and ends in the library, with the cache changed by nothing
  but the value that arrived.
\<close>

theorem openBook_failure_reverts:
  "(failsWith net st bookId = Some msg \<longrightarrow>
      alerts (openBook net bookId opts st) = alerts st @ [''Failed to open book: '' @ msg]
      \<and> inState (openBook net bookId opts st) Library
      \<and> bookCache (openBook net bookId opts st) = bookCache st)
   \<and> (failsOnShape net st bookId = Some entry \<longrightarrow>
      alerts (openBook net bookId opts st)
        = alerts st @ [''Failed to open book: '' @ drawError entry]
      \<and> inState (openBook net bookId opts st) Library
      \<and> bookCache (openBook net bookId opts st) = (bookCache st)(Some (Number bookId) \<mapsto> entry))
   \<and> (alerts (openBook net bookId opts st) = alerts st
      \<or> ((\<exists>m. alerts (openBook net bookId opts st) = alerts st @ [''Failed to open book: '' @ m])
         \<and> inState (openBook net bookId opts st) Library
         \<and> bookCache (openBook net bookId opts st) =
             (case arrived net st bookId of
                None \<Rightarrow> bookCache st
              | Some e \<Rightarrow> (bookCache st)(Some (Number bookId) \<mapsto> e))))
   \<and> (\<forall>w resp st' msg'. fetchJson (w_file w) resp = Inl msg' \<longrightarrow>
         alerts (openBook_resume w resp st') = alerts st' @ [''Failed to open book: '' @ msg']
         \<and> inState (openBook_resume w resp st') Library
         \<and> bookCache (openBook_resume w resp st') = bookCache st')"
  using openBook_failsWith[of net st bookId msg opts]
    openBook_failsOnShape[of net st bookId entry opts]
    openBook_cases[of net bookId opts st]
  by (simp add: openBook_resume_failure openBook_catch_effect)

text \<open>In the scenario: a tap on an id that the index does not have; a tap on Genesis while
  the network answers with a status that is not ok; a tap on Genesis answered with the
  empty object; and an answer that is not ok arriving on the page where Genesis is being
  read.\<close>

theorem openBook_failure_reverts_witness:
  "failsWith genesisNet startState (VNum (Num 7)) = Some ''Book meta not found''
   \<and> alerts (openBook genesisNet (VNum (Num 7)) noOptions startState)
       = [''Failed to open book: Book meta not found'']
   \<and> inState (openBook genesisNet (VNum (Num 7)) noOptions startState) Library
   \<and> bookCache (openBook genesisNet (VNum (Num 7)) noOptions startState) = bookCache startState
   \<and> failsWith downNet startState (VNum (Num 1)) = Some ''Failed to fetch g.json''
   \<and> alerts (openBook downNet (VNum (Num 1)) noOptions startState)
       = [''Failed to open book: Failed to fetch g.json'']
   \<and> inState (openBook downNet (VNum (Num 1)) noOptions startState) Library
   \<and> bookCache (openBook downNet (VNum (Num 1)) noOptions startState) = bookCache startState
   \<and> failsOnShape emptyObjectNet startState (VNum (Num 1)) = Some emptyObject
   \<and> alerts (openBook emptyObjectNet (VNum (Num 1)) noOptions startState)
       = [''Failed to open book: Cannot read properties of undefined (reading 'length')'']
   \<and> inState (openBook emptyObjectNet (VNum (Num 1)) noOptions startState) Library
   \<and> bookCache (openBook emptyObjectNet (VNum (Num 1)) noOptions startState)
       = (bookCache startState)(Some (Num 1) \<mapsto> emptyObject)
   \<and> fetchJson ''e.json'' (NotOk :: cached response) = Inl ''Failed to fetch e.json''
   \<and> inState (openBook_resume \<lparr>w_options = noOptions, w_file = ''e.json''\<rparr> NotOk readingState)
         Library
   \<and> bookCache (openBook_resume \<lparr>w_options = noOptions, w_file = ''e.json''\<rparr> NotOk readingState)
       = bookCache readingState"
proof -
  have a: "failsWith genesisNet startState (VNum (Num 7)) = Some ''Book meta not found''"
    by code_simp
  have b: "failsWith downNet startState (VNum (Num 1)) = Some ''Failed to fetch g.json''"
    by code_simp
  have c: "failsOnShape emptyObjectNet startState (VNum (Num 1)) = Some emptyObject"
    by code_simp
  have d: "drawError emptyObject = ''Cannot read properties of undefined (reading 'length')''"
    by (simp add: emptyObject_def)
  have e: "alerts startState = []" by code_simp
  have f: "fetchJson (w_file \<lparr>w_options = noOptions, w_file = ''e.json''\<rparr>)
             (NotOk :: cached response) = Inl ''Failed to fetch e.json''"
    by simp
  show ?thesis
    using openBook_failure_reverts[of genesisNet startState "VNum (Num 7)" _ noOptions]
      openBook_failure_reverts[of downNet startState "VNum (Num 1)" _ noOptions]
      openBook_failure_reverts[of emptyObjectNet startState "VNum (Num 1)" _ noOptions emptyObject]
      a b c d e f
    by simp
qed

text \<open>
  Claim C7 as stated fails where the file of Genesis holds the empty object: the tap
  fails, with one alert and the page back in the library, but the cache, which had
  nothing under 1, now has the empty object there. A second tap, with the network
  serving Genesis again, fetches nothing and fails on the value in the cache.
\<close>

theorem openBook_shape_counterexample:
  "bookCache startState (Some (Num 1)) = None
   \<and> failsWith emptyObjectNet startState (VNum (Num 1)) = None
   \<and> fetchJson ''g.json'' (emptyObjectNet ''g.json'') = Inr emptyObject
   \<and> alerts (selectBook emptyObjectNet 1 startState)
       = [''Failed to open book: Cannot read properties of undefined (reading 'length')'']
   \<and> inState (selectBook emptyObjectNet 1 startState) Library
   \<and> bookCache (selectBook emptyObjectNet 1 startState) (Some (Num 1)) = Some emptyObject
   \<and> fetches (selectBook genesisNet 1 (selectBook emptyObjectNet 1 startState)) = [''g.json'']
   \<and> inState (selectBook genesisNet 1 (selectBook emptyObjectNet 1 startState)) Library"
  by code_simp

subsection \<open>C4: the back button\<close>

text \<open>
  Claim C4 does not hold of the code. From the verse list of book 1, chapter 1, the back
  button shows the chapter list but leaves \<^verbatim>\<open>currentChapter\<close> at 1; the handler
  decides by \<^verbatim>\<open>currentChapter\<close>, so the second press shows the chapter list again and
  the library is never reached. The fragment is \<^verbatim>\<open>#book=1&chapter=1\<close> throughout.
\<close>

theorem back_twice_stays_on_chapters:
  "inState readingState (VerseList 1 1)
   \<and> mainClass (stateOf (backBtn_click readingState)) = ''page chapters-page''
   \<and> currentBookId (stateOf (backBtn_click readingState)) = Some (Num 1)
   \<and> currentChapter (stateOf (backBtn_click readingState)) = Some (Num 1)
   \<and> mainClass (stateOf (backBtn_click (stateOf (backBtn_click readingState))))
       = ''page chapters-page''
   \<and> currentBookId (stateOf (backBtn_click (stateOf (backBtn_click readingState))))
       = Some (Num 1)
   \<and> currentChapter (stateOf (backBtn_click (stateOf (backBtn_click readingState))))
       = Some (Num 1)
   \<and> locationHash (stateOf (backBtn_click (stateOf (backBtn_click readingState))))
       = ''#book=1&chapter=1''"
  by code_simp

subsection \<open>C5: two requests for a book that is still loading\<close>

text \<open>
  Claim C5, as amended. \<^verbatim>\<open>openBook\<close> looks into the cache only; the cache is written
  when the answer arrives, and nothing records that a request is under way. So for every
  book that is not in the cache and has a summary in the index, a request waits for the
  network, and a second request for the same id that arrives before the answer waits too:
  two fetches of the same file are issued.
\<close>

theorem openBook_twice_fetches_twice:
  assumes "bookCache st (Some (Num x)) = None"
    and "find (\<lambda>b. Num (s_id b) = Num x) (booksIndex st) = Some meta"
  shows "openBook_begin (VNum (Num x)) o1 st =
       Await (st\<lparr>currentBookId := Some (Num x), titleText := TLoading, backHidden := False,
                 fetches := fetches st @ [s_file meta]\<rparr>)
         \<lparr>w_options = o1, w_file = s_file meta\<rparr>
     \<and> openBook_begin (VNum (Num x)) o2 (stateOf (openBook_begin (VNum (Num x)) o1 st)) =
       Await (st\<lparr>currentBookId := Some (Num x), titleText := TLoading, backHidden := False,
                 fetches := fetches st @ [s_file meta, s_file meta]\<rparr>)
         \<lparr>w_options = o2, w_file = s_file meta\<rparr>"
  using assms by (simp add: openBook_begin_def ifTruthy_def)

text \<open>Two taps on Genesis before the first answer, in the scenario.\<close>

theorem openBook_twice_fetches_twice_witness:
  "bookCache startState (Some (Num 1)) = None
   \<and> find (\<lambda>b. Num (s_id b) = Num 1) (booksIndex startState) = Some genesisSummary
   \<and> fetches (stateOf (openBook_begin (VNum (Num 1)) noOptions
        (stateOf (openBook_begin (VNum (Num 1)) noOptions startState)))) = [''g.json'', ''g.json'']"
proof -
  have c: "bookCache startState (Some (Num 1)) = None" by code_simp
  have m: "find (\<lambda>b. Num (s_id b) = Num 1) (booksIndex startState) = Some genesisSummary"
    by code_simp
  have f: "fetches startState = []" "s_file genesisSummary = ''g.json''" by code_simp+
  have "openBook_begin (VNum (Num 1)) noOptions
          (stateOf (openBook_begin (VNum (Num 1)) noOptions startState)) =
        Await (startState\<lparr>currentBookId := Some (Num 1), titleText := TLoading,
                 backHidden := False,
                 fetches := fetches startState @ [s_file genesisSummary, s_file genesisSummary]\<rparr>)
          \<lparr>w_options = noOptions, w_file = s_file genesisSummary\<rparr>"
    using openBook_twice_fetches_twice[OF c m, of noOptions noOptions] by (rule conjunct2)
  then have "fetches (stateOf (openBook_begin (VNum (Num 1)) noOptions
          (stateOf (openBook_begin (VNum (Num 1)) noOptions startState)))) =
        fetches startState @ [s_file genesisSummary, s_file genesisSummary]"
    by simp
  with c m f show ?thesis by simp
qed

text \<open>Claim C5 as stated fails there: the number of fetches of \<^verbatim>\<open>g.json\<close> is two, not
  one.\<close>

theorem openBook_twice_counterexample:
  "fetches startState = []
   \<and> fetches (stateOf (openBook_begin (VNum (Num 1)) noOptions startState)) = [''g.json'']
   \<and> fetches (stateOf (openBook_begin (VNum (Num 1)) noOptions
        (stateOf (openBook_begin (VNum (Num 1)) noOptions startState)))) = [''g.json'', ''g.json'']"
  by code_simp

subsection \<open>C9: the search with a blank query\<close>

text \<open>
  Claim C9. For every list of summaries and every cache, a query that is empty or made of
  white space only trims to the empty string, and the search then shows the whole list
  in its order; nothing else of the page changes.
\<close>

theorem search_blank_shows_all:
  assumes "set ws \<subseteq> set wsChars"
  shows "trim (concat ws) = []
     \<and> searchInput (concat ws) st = st\<lparr>booksGrid := booksIndex st\<rparr>"
  using trim_blank[OF assms]
  by (simp add: searchInput_def searchInput_with_def asciiLowerCase_def renderBooksGrid_def)

text \<open>The empty query, and the query of a space, a tab and a space, on the library of two
  books.\<close>

theorem search_blank_shows_all_witness:
  "set [] \<subseteq> set wsChars
   \<and> set [[CHR 0x20], [CHR 0x09], [CHR 0x20]] \<subseteq> set wsChars
   \<and> booksGrid (searchInput [] searchState) = [genesisSummary, exodusSummary]
   \<and> booksGrid (searchInput [CHR 0x20, CHR 0x09, CHR 0x20] searchState)
       = [genesisSummary, exodusSummary]"
proof -
  have a: "set ([] :: string list) \<subseteq> set wsChars" by simp
  have b: "set [[CHR 0x20], [CHR 0x09], [CHR 0x20]] \<subseteq> set wsChars"
    by (simp add: wsChars_def)
  have i: "booksIndex searchState = [genesisSummary, exodusSummary]"
    by (simp add: searchState_def)
  show ?thesis
    using search_blank_shows_all[OF a, of searchState] search_blank_shows_all[OF b, of searchState]
      a b i
    by simp
qed

subsection \<open>C8: the search with a query\<close>

text \<open>
  Claim C8, as amended. \<open>lc\<close> is the built-in lower case, of which only this is assumed:
  it makes no text empty that is not. For every list of summaries, every query that is
  not empty after trimming, and every cache in which the entries under the ids of the
  summaries are books, the search shows exactly the summaries, in the order of the list,
  that match: the lower case of the trimmed query occurs in the lower case of the name,
  or the id is in the cache and it occurs in the lower case of some verse of some chapter
  of the cached book. A book that is not in the cache is shown exactly when its name
  matches; no fetch is issued, the cache is not changed and nothing is thrown. Where
  \<open>lc\<close> is the lower case of the ASCII letters on texts of ASCII characters, as the
  built-in is, an ASCII query occurs in that way in an ASCII text exactly when the text
  contains it up to the case of the letters.
\<close>

theorem search_filter:
  assumes "trim query \<noteq> []"
    and "\<And>s. lc s = [] \<Longrightarrow> s = []"
    and "booksOnly (booksIndex st) (bookCache st)"
  shows "booksGrid (searchInput_with lc query st)
       = filter (matches lc (bookCache st) (trim query)) (booksIndex st)
     \<and> subseq (booksGrid (searchInput_with lc query st)) (booksIndex st)
     \<and> (\<forall>b \<in> set (booksIndex st). bookCache st (Some (Num (s_id b))) = None \<longrightarrow>
           (b \<in> set (booksGrid (searchInput_with lc query st))
              \<longleftrightarrow> occursIn (lc (trim query)) (lc (s_name b))))
     \<and> fetches (searchInput_with lc query st) = fetches st
     \<and> bookCache (searchInput_with lc query st) = bookCache st
     \<and> uncaught (searchInput_with lc query st) = uncaught st
     \<and> ((\<forall>s. list_all isAscii s \<longrightarrow> lc s = asciiLowerCase s) \<longrightarrow>
          (\<forall>t. list_all isAscii t \<and> list_all isAscii (trim query) \<longrightarrow>
             occursIn (lc (trim query)) (lc t) = containsCI t (trim query)))"
proof -
  from assms(1,2) have q: "lc (trim query) \<noteq> []" by auto
  have run: "searchInput_with lc query st
      = renderBooksGrid (filter (matches lc (bookCache st) (trim query)) (booksIndex st)) st"
    using q filterBooks_spec[OF assms(3), of lc "trim query"]
    by (simp add: searchInput_with_def)
  have grid: "booksGrid (searchInput_with lc query st)
      = filter (matches lc (bookCache st) (trim query)) (booksIndex st)"
    and unc: "uncaught (searchInput_with lc query st) = uncaught st"
    unfolding run by (simp_all add: renderBooksGrid_def)
  have uncached: "\<forall>b \<in> set (booksIndex st). bookCache st (Some (Num (s_id b))) = None \<longrightarrow>
           (b \<in> set (filter (matches lc (bookCache st) (trim query)) (booksIndex st))
              \<longleftrightarrow> occursIn (lc (trim query)) (lc (s_name b)))"
    by (auto simp: matches_def)
  have ascii: "(\<forall>s. list_all isAscii s \<longrightarrow> lc s = asciiLowerCase s) \<longrightarrow>
          (\<forall>t. list_all isAscii t \<and> list_all isAscii (trim query) \<longrightarrow>
             occursIn (lc (trim query)) (lc t) = containsCI t (trim query))"
    by (simp add: includes_lower)
  show ?thesis
    unfolding grid using uncached ascii unc
    by (simp add: searchInput_with_others)
qed

text \<open>On the library of two books, with the lower case of the ASCII letters: a query in
  capitals with spaces around it finds Genesis by the verse in the cache, and a query in
  mixed case finds Exodus, which is not in the cache, by its name.\<close>

theorem search_filter_witness:
  "trim ''  BEGINNING '' = ''BEGINNING''
   \<and> booksOnly (booksIndex searchState) (bookCache searchState)
   \<and> booksGrid (searchInput_with asciiLowerCase ''  BEGINNING '' searchState) = [genesisSummary]
   \<and> filter (matches asciiLowerCase (bookCache searchState) ''BEGINNING'') (booksIndex searchState)
       = [genesisSummary]
   \<and> trim ''eXo'' = ''eXo''
   \<and> bookCache searchState (Some (Num (s_id exodusSummary))) = None
   \<and> booksGrid (searchInput_with asciiLowerCase ''eXo'' searchState) = [exodusSummary]
   \<and> containsCI ''Exodus'' ''eXo''"
proof -
  have t: "trim ''  BEGINNING '' = ''BEGINNING''" "trim ''eXo'' = ''eXo''" by code_simp+
  then have n: "trim ''  BEGINNING '' \<noteq> []" "trim ''eXo'' \<noteq> []" by simp_all
  have l: "asciiLowerCase s = [] \<Longrightarrow> s = []" for s by (simp add: asciiLowerCase_def)
  have o: "booksOnly (booksIndex searchState) (bookCache searchState)" by code_simp
  have g: "booksGrid (searchInput_with asciiLowerCase ''  BEGINNING '' searchState) = [genesisSummary]"
    "booksGrid (searchInput_with asciiLowerCase ''eXo'' searchState) = [exodusSummary]"
    "bookCache searchState (Some (Num (s_id exodusSummary))) = None"
    by code_simp+
  have i: "exodusSummary \<in> set (booksIndex searchState)" by (simp add: searchState_def)
  have a: "list_all isAscii ''Exodus''" "list_all isAscii ''eXo''" by code_simp+
  have e: "s_name exodusSummary = ''Exodus''" by (simp add: exodusSummary_def)
  note w1 = search_filter[of "''  BEGINNING ''" asciiLowerCase searchState, OF n(1) l o]
  note w2 = search_filter[of "''eXo''" asciiLowerCase searchState, OF n(2) l o]
  from w1 g(1) t(1) have f: "filter (matches asciiLowerCase (bookCache searchState) ''BEGINNING'')
       (booksIndex searchState) = [genesisSummary]"
    by simp
  from w2 g(2,3) i t(2) e have "occursIn (asciiLowerCase ''eXo'') (asciiLowerCase ''Exodus'')"
    by auto
  moreover from w2 a t(2) have "occursIn (asciiLowerCase ''eXo'') (asciiLowerCase ''Exodus'')
      = containsCI ''Exodus'' ''eXo''"
    by simp
  ultimately have c: "containsCI ''Exodus'' ''eXo''" by simp
  show ?thesis using t o g f c by simp
qed

text \<open>
  Claim C8 as stated fails on a cache that holds a value without chapters, as it does
  after a tap on Exodus that was answered with the empty object. The name of Genesis
  contains the query \<^verbatim>\<open>gen\<close>, but the callback of the filter throws on the entry of
  Exodus and the handler ends without drawing: the grid is what it was, two cards or
  none, and not the card of Genesis alone.
\<close>

theorem search_polluted_counterexample:
  "booksIndex pollutedState = [genesisSummary, exodusSummary]
   \<and> bookCache pollutedState (Some (Num 2)) = Some emptyObject
   \<and> trim ''gen'' = ''gen''
   \<and> includesStr (asciiLowerCase (s_name genesisSummary)) (asciiLowerCase ''gen'')
   \<and> booksGrid (searchInput ''gen'' pollutedState) = [genesisSummary, exodusSummary]
   \<and> booksGrid (searchInput ''gen'' pollutedState) \<noteq> [genesisSummary]
   \<and> uncaught (searchInput ''gen'' pollutedState)
       = [TypeError ''Cannot read properties of undefined (reading 'some')'']
   \<and> booksGrid (searchInput ''gen'' (pollutedState\<lparr>booksGrid := []\<rparr>)) = []"
  by code_simp

end
